theory Spec2Isabelle
  imports Complex_Main "HOL-Library.AList" "HOL-Library.Sublist"
begin

section \<open>Python values held in the table\<close>

text \<open>
  The dashboard script \<^verbatim>\<open>areaMap.py\<close> parses a JSON body and keeps the parsed
  values in the cells of a pandas table. A cell therefore holds one of the Python values a
  JSON document produces: \<^verbatim>\<open>None\<close>, a bool, an int, a float, a string, a list or a
  dict with string keys. \<open>PNaN\<close> is the float \<^verbatim>\<open>nan\<close>: pandas stores it in a cell
  whose record has no entry for the column. A dict is an association list, read with
  \<^const>\<open>map_of\<close>. Finite floats are kept as the number they denote; no arithmetic is done
  on them.
\<close>

datatype pyval =
    PNone
  | PNaN
  | PBool bool
  | PInt int
  | PFloat real
  | PStr string
  | PList "pyval list"
  | PDict "(string \<times> pyval) list"

datatype exn = TypeError | KeyError string

text \<open>Truth value of a Python object, as \<^verbatim>\<open>x and ...\<close> tests it. \<^verbatim>\<open>nan\<close> is a
  non-zero float and so is true.\<close>

fun truthy :: "pyval \<Rightarrow> bool" where
  "truthy PNone = False"
| "truthy PNaN = True"
| "truthy (PBool b) = b"
| "truthy (PInt i) = (i \<noteq> 0)"
| "truthy (PFloat r) = (r \<noteq> 0)"
| "truthy (PStr s) = (s \<noteq> [])"
| "truthy (PList xs) = (xs \<noteq> [])"
| "truthy (PDict kv) = (kv \<noteq> [])"

text \<open>\<^verbatim>\<open>k in x\<close> for a string \<open>k\<close>: key membership on a dict, element membership on a
  list, substring test on a string, and \<^verbatim>\<open>TypeError\<close> on everything that is not
  iterable.\<close>

fun py_in :: "string \<Rightarrow> pyval \<Rightarrow> exn + bool" where
  "py_in k (PDict kv) = Inr (k \<in> set (map fst kv))"
| "py_in k (PList xs) = Inr (PStr k \<in> set xs)"
| "py_in k (PStr s) = Inr (sublist k s)"
| "py_in k PNone = Inl TypeError"
| "py_in k PNaN = Inl TypeError"
| "py_in k (PBool b) = Inl TypeError"
| "py_in k (PInt i) = Inl TypeError"
| "py_in k (PFloat r) = Inl TypeError"

text \<open>\<^verbatim>\<open>x[k]\<close> for a string \<open>k\<close>: only a dict can be indexed by a string.\<close>

fun py_getitem :: "pyval \<Rightarrow> string \<Rightarrow> exn + pyval" where
  "py_getitem (PDict kv) k = (case map_of kv k of None \<Rightarrow> Inl (KeyError k) | Some v \<Rightarrow> Inr v)"
| "py_getitem PNone k = Inl TypeError"
| "py_getitem PNaN k = Inl TypeError"
| "py_getitem (PBool b) k = Inl TypeError"
| "py_getitem (PInt i) k = Inl TypeError"
| "py_getitem (PFloat r) k = Inl TypeError"
| "py_getitem (PStr s) k = Inl TypeError"
| "py_getitem (PList xs) k = Inl TypeError"

text \<open>pandas' test for a missing value: \<^verbatim>\<open>None\<close> and \<^verbatim>\<open>nan\<close>.\<close>

definition isna :: "pyval \<Rightarrow> bool" where
  "isna v = (v = PNone \<or> v = PNaN)"

section \<open>Coordinate extraction (lines 40 and 41)\<close>

text \<open>
  \<^verbatim>\<open>lambda x: x["lat"] if x and "lat" in x else None\<close> and its twin for
  \<^verbatim>\<open>"lng"\<close>. The condition \<^verbatim>\<open>x and k in x\<close> evaluates \<^verbatim>\<open>k in x\<close> only
  when \<open>x\<close> is true.
\<close>

definition extract_key :: "string \<Rightarrow> pyval \<Rightarrow> exn + pyval" where
  "extract_key k x =
     (if truthy x then
        (case py_in k x of
           Inl e \<Rightarrow> Inl e
         | Inr b \<Rightarrow> if b then py_getitem x k else Inr PNone)
      else Inr PNone)"

definition lat_of_geocode :: "pyval \<Rightarrow> exn + pyval" where
  "lat_of_geocode x = extract_key ''lat'' x"

definition lon_of_geocode :: "pyval \<Rightarrow> exn + pyval" where
  "lon_of_geocode x = extract_key ''lng'' x"

section \<open>Marker colour (lines 51 to 58)\<close>

text \<open>\<^verbatim>\<open>priority == 'urgent'\<close> holds for the string \<^verbatim>\<open>'urgent'\<close> only; the result
  is the four-element list of the RGBA channels.\<close>

definition rgba :: "int \<Rightarrow> int \<Rightarrow> int \<Rightarrow> int \<Rightarrow> pyval" where
  "rgba r g b a = PList [PInt r, PInt g, PInt b, PInt a]"

definition priority_to_color :: "pyval \<Rightarrow> pyval" where
  "priority_to_color priority =
     (if priority = PStr ''urgent'' then rgba 255 0 0 200
      else if priority = PStr ''high'' then rgba 255 255 0 200
      else if priority = PStr ''medium'' then rgba 255 165 0 200
      else rgba 0 200 0 200)"

section \<open>The table\<close>

text \<open>
  A pandas \<^verbatim>\<open>DataFrame\<close>: the ordered column labels and the rows, each row an
  association list from column label to cell. \<^verbatim>\<open>pd.DataFrame(data)\<close> on a list of
  dicts (line 34) takes the union of the keys, in the order they are first met, as columns and
  fills a cell whose record has no such key with \<^verbatim>\<open>nan\<close>. The per-column dtype that
  pandas infers afterwards (which may store an integer as the equal float and
  \<^verbatim>\<open>None\<close> as \<^verbatim>\<open>nan\<close>) is not part of the model: cells keep the parsed
  values, and both \<^verbatim>\<open>None\<close> and \<^verbatim>\<open>nan\<close> are missing values. Where
  pandas re-types a column, an integer beside a missing entry, it prints \<^verbatim>\<open>1.0\<close>
  and \<^verbatim>\<open>nan\<close> for what the cells of this table print as \<^verbatim>\<open>1\<close> and
  \<^verbatim>\<open>None\<close>. The facts proved below are about an arbitrary table, or about sample
  records none of whose columns is re-typed.
\<close>

type_synonym row = "(string \<times> pyval) list"

record dataframe =
  columns :: "string list"
  rows :: "row list"

definition first_seen :: "'a list \<Rightarrow> 'a list" where
  "first_seen xs = rev (remdups (rev xs))"

definition cell :: "row \<Rightarrow> string \<Rightarrow> pyval" where
  "cell r k = (case map_of r k of None \<Rightarrow> PNaN | Some v \<Rightarrow> v)"

definition DataFrame :: "row list \<Rightarrow> dataframe" where
  "DataFrame data =
     (let cols = first_seen (concat (map (map fst) data))
      in \<lparr>columns = cols, rows = map (\<lambda>d. map (\<lambda>c. (c, cell d c)) cols) data\<rparr>)"

text \<open>\<^verbatim>\<open>df.empty\<close>: some axis has length zero.\<close>

definition empty_df :: "dataframe \<Rightarrow> bool" where
  "empty_df df = (columns df = [] \<or> rows df = [])"

definition column :: "dataframe \<Rightarrow> string \<Rightarrow> pyval list" where
  "column df k = map (\<lambda>r. cell r k) (rows df)"

text \<open>\<^verbatim>\<open>Series.apply(f)\<close>: \<open>f\<close> on every element in order; the first exception
  ends the call.\<close>

fun map_exn :: "('a \<Rightarrow> exn + 'b) \<Rightarrow> 'a list \<Rightarrow> exn + 'b list" where
  "map_exn f [] = Inr []"
| "map_exn f (x # xs) =
     (case f x of
        Inl e \<Rightarrow> Inl e
      | Inr y \<Rightarrow> (case map_exn f xs of Inl e \<Rightarrow> Inl e | Inr ys \<Rightarrow> Inr (y # ys)))"

text \<open>\<^verbatim>\<open>df[k] = values\<close>: an existing column is overwritten in place, a new one is
  appended as the last column.\<close>

definition set_column :: "string \<Rightarrow> pyval list \<Rightarrow> dataframe \<Rightarrow> dataframe" where
  "set_column k vs df =
     \<lparr>columns = (if k \<in> set (columns df) then columns df else columns df @ [k]),
      rows = map (\<lambda>(r, v). AList.update k v r) (zip (rows df) vs)\<rparr>"

text \<open>\<^verbatim>\<open>df.dropna(subset=ks)\<close>: the rows with no missing value under any of
  \<open>ks\<close>, in their order.\<close>

definition complete_row :: "string list \<Rightarrow> row \<Rightarrow> bool" where
  "complete_row ks r = list_all (\<lambda>k. \<not> isna (cell r k)) ks"

definition dropna :: "string list \<Rightarrow> dataframe \<Rightarrow> dataframe" where
  "dropna ks df = \<lparr>columns = columns df, rows = filter (complete_row ks) (rows df)\<rparr>"

section \<open>Normalizer (lines 39 to 48)\<close>

datatype level = Error | Info | Warning

text \<open>How the script ends before the page is complete: a message followed by
  \<^verbatim>\<open>st.stop()\<close>, or an exception nothing catches.\<close>

datatype stop = Halt level string | Uncaught exn

definition flatten :: "dataframe \<Rightarrow> exn + dataframe" where
  "flatten df =
     (case map_exn lat_of_geocode (column df ''geocode'') of
        Inl e \<Rightarrow> Inl e
      | Inr lats \<Rightarrow>
          (let df1 = set_column ''lat'' lats df
           in case map_exn lon_of_geocode (column df1 ''geocode'') of
                Inl e \<Rightarrow> Inl e
              | Inr lons \<Rightarrow> Inr (set_column ''lon'' lons df1)))"

definition no_data_message :: string where
  "no_data_message = ''Waiting for data... No active geocode queries found at the moment.''"

definition no_valid_geocodes_message :: string where
  "no_valid_geocodes_message = ''No data with valid geocodes to display.''"

definition normalizer :: "dataframe \<Rightarrow> stop + dataframe" where
  "normalizer df =
     (if \<not> empty_df df \<and> ''geocode'' \<in> set (columns df) then
        (case flatten df of
           Inl e \<Rightarrow> Inl (Uncaught e)
         | Inr df2 \<Rightarrow>
             (let df3 = dropna [''lat'', ''lon''] df2
              in if empty_df df3 then Inl (Halt Warning no_valid_geocodes_message)
                 else Inr df3))
      else Inl (Halt Info no_data_message))"

section \<open>Presenter (lines 60 to 70)\<close>

text \<open>
  An f-string field \<^verbatim>\<open>{v}\<close> is \<^verbatim>\<open>format(v, '')\<close>, which is \<^verbatim>\<open>str(v)\<close> for
  the values of a cell. The decimal digits of an int, the text of a string and the words for
  \<^verbatim>\<open>None\<close>, the bools and \<^verbatim>\<open>nan\<close> are written out; the \<^verbatim>\<open>repr\<close> of a
  finite float and of a list or dict is the Python runtime's and is taken as the parameter
  \<open>rp\<close>.
\<close>

definition digit_char :: "nat \<Rightarrow> char" where
  "digit_char d = ''0123456789'' ! d"

function digits :: "nat \<Rightarrow> string" where
  "digits n = (if n < 10 then [digit_char n] else digits (n div 10) @ [digit_char (n mod 10)])"
  by pat_completeness auto
termination
  by (relation "measure id") auto

definition str_of_int :: "int \<Rightarrow> string" where
  "str_of_int i = (if i < 0 then CHR ''-'' # digits (nat (- i)) else digits (nat i))"

fun py_format :: "(pyval \<Rightarrow> string) \<Rightarrow> pyval \<Rightarrow> string" where
  "py_format rp PNone = ''None''"
| "py_format rp PNaN = ''nan''"
| "py_format rp (PBool b) = (if b then ''True'' else ''False'')"
| "py_format rp (PInt i) = str_of_int i"
| "py_format rp (PStr s) = s"
| "py_format rp (PFloat r) = rp (PFloat r)"
| "py_format rp (PList xs) = rp (PList xs)"
| "py_format rp (PDict kv) = rp (PDict kv)"

text \<open>\<^verbatim>\<open>x[k]\<close> on a row raises \<^verbatim>\<open>KeyError\<close> when the table has no column
  \<open>k\<close>.\<close>

definition field :: "(pyval \<Rightarrow> string) \<Rightarrow> row \<Rightarrow> string \<Rightarrow> exn + string" where
  "field rp x k = (case map_of x k of None \<Rightarrow> Inl (KeyError k) | Some v \<Rightarrow> Inr (py_format rp v))"

definition bind_exn :: "exn + 'a \<Rightarrow> ('a \<Rightarrow> exn + 'b) \<Rightarrow> exn + 'b" where
  "bind_exn m f = (case m of Inl e \<Rightarrow> Inl e | Inr a \<Rightarrow> f a)"

text \<open>The lambda of lines 61 to 66. The six fields are read in the order of the text.\<close>

definition tooltip_of_row :: "(pyval \<Rightarrow> string) \<Rightarrow> row \<Rightarrow> exn + string" where
  "tooltip_of_row rp x =
     bind_exn (field rp x ''query_id'') (\<lambda>qid.
     bind_exn (field rp x ''query_address'') (\<lambda>address.
     bind_exn (field rp x ''region'') (\<lambda>region.
     bind_exn (field rp x ''query_status'') (\<lambda>status.
     bind_exn (field rp x ''priority_status'') (\<lambda>priority.
     bind_exn (field rp x ''query_description'') (\<lambda>description.
       Inr (''ID: '' @ qid @ ''\<newline>''
          @ ''Address: '' @ address @ ''\<newline>''
          @ ''Region: '' @ region @ ''\<newline>''
          @ ''Status: '' @ status @ ''\<newline>''
          @ ''Priority: '' @ priority @ ''\<newline>''
          @ ''description: '' @ description @ '' '')))))))"

text \<open>\<^verbatim>\<open>df[k]\<close> raises \<^verbatim>\<open>KeyError\<close> for a label that is no column.\<close>

definition get_column :: "dataframe \<Rightarrow> string \<Rightarrow> exn + pyval list" where
  "get_column df k = (if k \<in> set (columns df) then Inr (column df k) else Inl (KeyError k))"

definition add_tooltip :: "(pyval \<Rightarrow> string) \<Rightarrow> dataframe \<Rightarrow> exn + dataframe" where
  "add_tooltip rp df =
     bind_exn (map_exn (tooltip_of_row rp) (rows df)) (\<lambda>ts.
       Inr (set_column ''tooltip'' (map PStr ts) df))"

definition add_color :: "dataframe \<Rightarrow> exn + dataframe" where
  "add_color df =
     bind_exn (get_column df ''priority_status'') (\<lambda>ps.
       Inr (set_column ''color'' (map priority_to_color ps) df))"

section \<open>Table view, export and key metrics (lines 82 to 109)\<close>

definition display_columns :: "string list" where
  "display_columns =
     [''query_id'', ''query_address'', ''region'', ''query_status'', ''priority_status'',
      ''query_description'', ''lat'', ''lon'']"

text \<open>\<^verbatim>\<open>df[[...]]\<close>: the listed columns in the listed order; \<^verbatim>\<open>KeyError\<close> when one
  of them is no column (the exception is kept with the first missing label).\<close>

definition select_columns :: "string list \<Rightarrow> dataframe \<Rightarrow> exn + dataframe" where
  "select_columns ks df =
     (case filter (\<lambda>k. k \<notin> set (columns df)) ks of
        [] \<Rightarrow> Inr \<lparr>columns = ks, rows = map (\<lambda>r. map (\<lambda>k. (k, cell r k)) ks) (rows df)\<rparr>
      | k # _ \<Rightarrow> Inl (KeyError k))"

text \<open>
  \<^verbatim>\<open>Series.nunique()\<close> hashes every value (a list or a dict cannot be hashed), leaves
  the missing values out and counts the keys that remain. Python's hash keys identify
  \<^verbatim>\<open>True\<close> with \<^verbatim>\<open>1\<close> and an integral float with the int.
\<close>

fun hashable :: "pyval \<Rightarrow> bool" where
  "hashable (PList xs) = False"
| "hashable (PDict kv) = False"
| "hashable v = True"

fun py_key :: "pyval \<Rightarrow> pyval" where
  "py_key (PBool b) = PInt (if b then 1 else 0)"
| "py_key (PFloat r) = (if r = of_int \<lfloor>r\<rfloor> then PInt \<lfloor>r\<rfloor> else PFloat r)"
| "py_key v = v"

definition nunique :: "pyval list \<Rightarrow> exn + nat" where
  "nunique vs =
     (if list_all hashable vs
      then Inr (length (remdups (map py_key (filter (\<lambda>v. \<not> isna v) vs))))
      else Inl TypeError)"

record page =
  layer_data :: dataframe
  table_view :: dataframe
  csv_source :: dataframe
  total_queries :: nat
  number_of_regions :: nat
  urgent_queries :: nat

text \<open>
  What the script does with a table that passed the normalizer, up to the key metrics: the
  tooltip and colour columns, the table view and the frame handed to
  \<^verbatim>\<open>convert_df_to_csv\<close>, and the three metrics. The charts, the cross-tabulation and the
  map that follow are calls into the presentation framework on this same table and are not
  part of the model.
\<close>

definition render :: "(pyval \<Rightarrow> string) \<Rightarrow> dataframe \<Rightarrow> exn + page" where
  "render rp df0 =
     bind_exn (add_tooltip rp df0) (\<lambda>df1.
     bind_exn (add_color df1) (\<lambda>df.
     bind_exn (select_columns display_columns df) (\<lambda>shown.
     bind_exn (select_columns display_columns df) (\<lambda>exported.
     bind_exn (get_column df ''region'') (\<lambda>regions.
     bind_exn (nunique regions) (\<lambda>n_regions.
     bind_exn (get_column df ''priority_status'') (\<lambda>ps.
       Inr \<lparr>layer_data = df, table_view = shown, csv_source = exported,
            total_queries = length (rows df),
            number_of_regions = n_regions,
            urgent_queries = length (filter (\<lambda>p. p = PStr ''urgent'') ps)\<rparr>)))))))"

section \<open>The whole script\<close>

text \<open>
  The answer of the remote endpoint is the script's input: either the request or the parsing
  of its body raised (lines 26 to 32, with the exception's text), or the body parsed to a
  JSON array of objects.
\<close>

datatype response = Failed string | Body "row list"

definition fetch_error_message :: "string \<Rightarrow> string" where
  "fetch_error_message e = ''Could not fetch or parse data from API: '' @ e"

definition run :: "(pyval \<Rightarrow> string) \<Rightarrow> response \<Rightarrow> stop + page" where
  "run rp resp =
     (case resp of
        Failed e \<Rightarrow> Inl (Halt Error (fetch_error_message e))
      | Body data \<Rightarrow>
          (case normalizer (DataFrame data) of
             Inl s \<Rightarrow> Inl s
           | Inr df \<Rightarrow>
               (case render rp df of
                  Inl e \<Rightarrow> Inl (Uncaught e)
                | Inr p \<Rightarrow> Inr p)))"

section \<open>CSV export (lines 84 to 88)\<close>

text \<open>
  Modelled from the spec: \<^verbatim>\<open>convert_df_to_csv\<close> is the single library call
  \<^verbatim>\<open>df.to_csv(index=False).encode('utf-8')\<close>, whose code is not in the repository, and
  the spec only names the result a CSV export with a header row. The export is modelled as
  comma-separated text with one line per row, the header first: a field is enclosed in double
  quotes when it holds a comma, a double quote or a line break, a double quote inside it is
  doubled, a lone empty field is written as two double quotes, and a missing value is written
  as the empty text. A text is the sequence of its bytes, so encoding it changes nothing.
\<close>

definition csv_field :: "(pyval \<Rightarrow> string) \<Rightarrow> pyval \<Rightarrow> string" where
  "csv_field rp v = (if isna v then [] else py_format rp v)"

definition special_char :: "char \<Rightarrow> bool" where
  "special_char c = (c = CHR '','' \<or> c = CHR 0x22 \<or> c = CHR 0x0A \<or> c = CHR 0x0D)"

definition needs_quotes :: "string \<Rightarrow> bool" where
  "needs_quotes s = list_ex special_char s"

definition escape_quotes :: "string \<Rightarrow> string" where
  "escape_quotes s = concat (map (\<lambda>c. if c = CHR 0x22 then [CHR 0x22, CHR 0x22] else [c]) s)"

definition quote_field :: "string \<Rightarrow> string" where
  "quote_field s = (if needs_quotes s then CHR 0x22 # escape_quotes s @ [CHR 0x22] else s)"

fun join_fields :: "string list \<Rightarrow> string" where
  "join_fields [] = []"
| "join_fields [f] = f"
| "join_fields (f # g # fs) = f @ CHR '','' # join_fields (g # fs)"

definition write_row :: "string list \<Rightarrow> string" where
  "write_row fs =
     (if fs = [[]] then [CHR 0x22, CHR 0x22] else join_fields (map quote_field fs)) @ [CHR 0x0A]"

definition write_csv :: "string list list \<Rightarrow> string" where
  "write_csv table = concat (map write_row table)"

definition text_rows :: "(pyval \<Rightarrow> string) \<Rightarrow> dataframe \<Rightarrow> string list list" where
  "text_rows rp df = map (\<lambda>r. map (\<lambda>k. csv_field rp (cell r k)) (columns df)) (rows df)"

definition to_csv :: "(pyval \<Rightarrow> string) \<Rightarrow> dataframe \<Rightarrow> string" where
  "to_csv rp df = write_csv (columns df # text_rows rp df)"

definition convert_df_to_csv :: "(pyval \<Rightarrow> string) \<Rightarrow> dataframe \<Rightarrow> string" where
  "convert_df_to_csv rp df_to_convert = to_csv rp df_to_convert"

text \<open>
  Modelled from the spec: the script never reads its export back; the spec's round trip
  re-parses it. The reader is the usual one for such text, a single pass that keeps the field
  being read (reversed), the fields of the line being read (reversed) and the lines read so
  far (reversed). It returns the lines as lists of field texts, the header line first, and
  nothing for a text that ends inside a quoted field or has a stray character after a closing
  quote.
\<close>

datatype csv_state = LineStart | FieldStart | InPlain | InQuoted | AfterQuote

fun read_from ::
  "csv_state \<Rightarrow> string \<Rightarrow> string list \<Rightarrow> string list list \<Rightarrow> string \<Rightarrow> string list list option"
where
  "read_from st cur row acc [] =
     (case st of
        LineStart \<Rightarrow> Some (rev acc)
      | InQuoted \<Rightarrow> None
      | FieldStart \<Rightarrow> Some (rev (rev (rev cur # row) # acc))
      | InPlain \<Rightarrow> Some (rev (rev (rev cur # row) # acc))
      | AfterQuote \<Rightarrow> Some (rev (rev (rev cur # row) # acc)))"
| "read_from st cur row acc (c # cs) =
     (case st of
        InQuoted \<Rightarrow>
          (if c = CHR 0x22 then read_from AfterQuote cur row acc cs
           else read_from InQuoted (c # cur) row acc cs)
      | AfterQuote \<Rightarrow>
          (if c = CHR 0x22 then read_from InQuoted (c # cur) row acc cs
           else if c = CHR '','' then read_from FieldStart [] (rev cur # row) acc cs
           else if c = CHR 0x0A then read_from LineStart [] [] (rev (rev cur # row) # acc) cs
           else None)
      | InPlain \<Rightarrow>
          (if c = CHR '','' then read_from FieldStart [] (rev cur # row) acc cs
           else if c = CHR 0x0A then read_from LineStart [] [] (rev (rev cur # row) # acc) cs
           else read_from InPlain (c # cur) row acc cs)
      | FieldStart \<Rightarrow>
          (if c = CHR 0x22 then read_from InQuoted [] row acc cs
           else if c = CHR '','' then read_from FieldStart [] ([] # row) acc cs
           else if c = CHR 0x0A then read_from LineStart [] [] (rev ([] # row) # acc) cs
           else read_from InPlain [c] row acc cs)
      | LineStart \<Rightarrow>
          (if c = CHR 0x22 then read_from InQuoted [] row acc cs
           else if c = CHR '','' then read_from FieldStart [] ([] # row) acc cs
           else if c = CHR 0x0A then read_from LineStart [] [] (rev row # acc) cs
           else read_from InPlain [c] row acc cs))"

definition read_csv :: "string \<Rightarrow> string list list option" where
  "read_csv text = read_from LineStart [] [] [] text"

section \<open>Shape of the records and sample inputs\<close>

text \<open>
  The endpoint is expected to send objects whose \<^verbatim>\<open>geocode\<close> is a structure or
  \<^verbatim>\<open>null\<close>. \<open>geocode_shaped\<close> says so of a cell, and \<open>null_coordinate\<close> collects the
  geocodes that yield no coordinate pair: \<^verbatim>\<open>null\<close>, the empty structure, a structure
  without the \<^verbatim>\<open>lat\<close> or the \<^verbatim>\<open>lng\<close> key, and a structure holding a missing value
  under one of them.
\<close>

fun geocode_shaped :: "pyval \<Rightarrow> bool" where
  "geocode_shaped PNone = True"
| "geocode_shaped (PDict kv) = True"
| "geocode_shaped v = False"

fun null_coordinate :: "pyval \<Rightarrow> bool" where
  "null_coordinate PNone = True"
| "null_coordinate (PDict kv) =
     (kv = []
      \<or> (case map_of kv ''lat'' of None \<Rightarrow> True | Some a \<Rightarrow> isna a)
      \<or> (case map_of kv ''lng'' of None \<Rightarrow> True | Some b \<Rightarrow> isna b))"
| "null_coordinate v = False"

definition core_fields :: "string list" where
  "core_fields =
     [''query_id'', ''query_address'', ''region'', ''query_status'', ''priority_status'',
      ''query_description'']"

text \<open>A record of the documented shape: the six core fields hold scalars and the geocode
  is a structure or \<^verbatim>\<open>null\<close>.\<close>

definition query_record :: "row \<Rightarrow> bool" where
  "query_record r =
     (list_all (\<lambda>k. case map_of r k of None \<Rightarrow> False | Some v \<Rightarrow> hashable v) core_fields
      \<and> (case map_of r ''geocode'' of None \<Rightarrow> False | Some g \<Rightarrow> geocode_shaped g))"

text \<open>The number of lines of a text: one more than its newline characters.\<close>

definition line_count :: "string \<Rightarrow> nat" where
  "line_count s = Suc (length (filter (\<lambda>c. c = CHR 0x0A) s))"

text \<open>A stand-in for \<^verbatim>\<open>repr\<close> where no float, list or dict is formatted.\<close>

definition no_repr :: "pyval \<Rightarrow> string" where
  "no_repr v = []"

definition johannesburg :: pyval where
  "johannesburg = PDict [(''lat'', PFloat (- 26.2)), (''lng'', PFloat 28.0)]"

definition urgent_record :: row where
  "urgent_record =
     [(''query_id'', PInt 1), (''query_address'', PStr ''12 Main Rd''),
      (''region'', PStr ''Gauteng''), (''query_status'', PStr ''open''),
      (''priority_status'', PStr ''urgent''), (''query_description'', PStr ''pothole''),
      (''geocode'', johannesburg)]"

definition low_record :: row where
  "low_record =
     [(''query_id'', PInt 2), (''query_address'', PStr ''3 Long St''),
      (''region'', PStr ''Gauteng''), (''query_status'', PStr ''closed''),
      (''priority_status'', PStr ''low''), (''query_description'', PStr ''leak''),
      (''geocode'', johannesburg)]"

definition null_geocode_record :: row where
  "null_geocode_record =
     [(''query_id'', PInt 3), (''query_address'', PStr ''7 Hill Ave''),
      (''region'', PStr ''Limpopo''), (''query_status'', PStr ''open''),
      (''priority_status'', PStr ''high''), (''query_description'', PStr ''street light''),
      (''geocode'', PNone)]"

definition no_geocode_record :: row where
  "no_geocode_record =
     [(''query_id'', PInt 4), (''query_address'', PStr ''9 Kerk St''),
      (''region'', PStr ''Limpopo''), (''query_status'', PStr ''open''),
      (''priority_status'', PStr ''medium''), (''query_description'', PStr ''refuse'')]"

text \<open>The geocodes from which lines 40 and 41 extract a missing \<^verbatim>\<open>lat\<close> or
  \<^verbatim>\<open>lon\<close> without raising.\<close>

definition extracts_null :: "pyval \<Rightarrow> bool" where
  "extracts_null g =
     (case lat_of_geocode g of
        Inl e \<Rightarrow> False
      | Inr a \<Rightarrow> (case lon_of_geocode g of Inl e \<Rightarrow> False | Inr b \<Rightarrow> isna a \<or> isna b))"

definition cape_town :: pyval where
  "cape_town = PDict [(''lat'', PFloat (- 33.9)), (''lng'', PFloat 18.4)]"

definition second_urgent_record :: row where
  "second_urgent_record =
     [(''query_id'', PInt 5), (''query_address'', PStr ''40 Bree St''),
      (''region'', PStr ''Western Cape''), (''query_status'', PStr ''closed''),
      (''priority_status'', PStr ''urgent''), (''query_description'', PStr ''burst pipe''),
      (''geocode'', cape_town)]"

definition zero_geocode_record :: row where
  "zero_geocode_record =
     [(''query_id'', PInt 6), (''query_address'', PStr ''5 Oak Rd''),
      (''region'', PStr ''Gauteng''), (''query_status'', PStr ''open''),
      (''priority_status'', PStr ''low''), (''query_description'', PStr ''noise''),
      (''geocode'', PInt 0)]"

definition blank_description_record :: row where
  "blank_description_record =
     [(''query_id'', PStr ''Q7''), (''query_address'', PStr ''8 Pine Rd''),
      (''region'', PStr ''Gauteng''), (''query_status'', PStr ''open''),
      (''priority_status'', PStr ''low''), (''query_description'', PStr []),
      (''geocode'', johannesburg)]"

definition missing_description_record :: row where
  "missing_description_record =
     [(''query_id'', PStr ''Q7''), (''query_address'', PStr ''8 Pine Rd''),
      (''region'', PStr ''Gauteng''), (''query_status'', PStr ''open''),
      (''priority_status'', PStr ''low''), (''query_description'', PNone),
      (''geocode'', johannesburg)]"

definition quoted_description_record :: row where
  "quoted_description_record =
     [(''query_id'', PStr ''Q8''), (''query_address'', PStr ''1 Elm St, Unit 2''),
      (''region'', PStr ''Gauteng''), (''query_status'', PStr ''open''),
      (''priority_status'', PStr ''high''),
      (''query_description'', PStr (''sign reads '' @ [CHR 0x22] @ ''STOP'' @ [CHR 0x22])),
      (''geocode'', johannesburg)]"

text \<open>The \<^verbatim>\<open>repr\<close> of the floats of the sample records.\<close>

definition sample_repr :: "pyval \<Rightarrow> string" where
  "sample_repr v =
     (if v = PFloat (- 26.2) then ''-26.2''
      else if v = PFloat 28.0 then ''28.0''
      else if v = PFloat (- 33.9) then ''-33.9''
      else if v = PFloat 18.4 then ''18.4''
      else ''?'')"

definition sample_table :: dataframe where
  "sample_table = DataFrame [null_geocode_record, urgent_record, low_record]"

definition quoted_table :: dataframe where
  "quoted_table = projr (normalizer (DataFrame [quoted_description_record, null_geocode_record]))"

text \<open>A table without the rows that \<open>removed\<close> holds of.\<close>

definition without :: "(row \<Rightarrow> bool) \<Rightarrow> dataframe \<Rightarrow> dataframe" where
  "without removed df = \<lparr>columns = columns df, rows = filter (\<lambda>r. \<not> removed r) (rows df)\<rparr>"

definition has_null_geocode :: "row \<Rightarrow> bool" where
  "has_null_geocode r = (cell r ''geocode'' = PNone)"

text \<open>The row that lines 40 and 41 make of a row whose geocode they can read.\<close>

abbreviation lat_val :: "row \<Rightarrow> pyval" where
  "lat_val r \<equiv> projr (lat_of_geocode (cell r ''geocode''))"

abbreviation lon_val :: "row \<Rightarrow> pyval" where
  "lon_val r \<equiv> projr (lon_of_geocode (cell r ''geocode''))"

abbreviation flat_row :: "row \<Rightarrow> row" where
  "flat_row r \<equiv> AList.update ''lon'' (lon_val r) (AList.update ''lat'' (lat_val r) r)"

section \<open>Auxiliary facts\<close>

lemma cell_update: "cell (AList.update k v r) k' = (if k' = k then v else cell r k')"
  by (simp add: cell_def update_conv')

lemma map_exn_Inr_map: "map_exn f xs = Inr ys \<Longrightarrow> ys = map (\<lambda>x. projr (f x)) xs"
  by (induction xs arbitrary: ys) (auto split: sum.splits)

lemma map_exn_Inr_all: "map_exn f xs = Inr ys \<Longrightarrow> x \<in> set xs \<Longrightarrow> \<exists>y. f x = Inr y"
  by (induction xs arbitrary: ys) (auto split: sum.splits)

lemma map_exn_all_Inr: "\<forall>x\<in>set xs. \<exists>y. f x = Inr y \<Longrightarrow> map_exn f xs = Inr (map (\<lambda>x. projr (f x)) xs)"
  by (induction xs) (fastforce split: sum.splits)+

lemma map_exn_Inl: "map_exn f xs = Inl e \<Longrightarrow> \<exists>x\<in>set xs. f x = Inl e"
  by (induction xs) (auto split: sum.splits)

lemma rows_set_column_map:
  "rows (set_column k (map g (rows df)) df) = map (\<lambda>r. AList.update k (g r) r) (rows df)"
  by (simp add: set_column_def zip_map2 zip_same_conv_map)

lemma columns_set_column:
  "columns (set_column k vs df) = (if k \<in> set (columns df) then columns df else columns df @ [k])"
  by (simp add: set_column_def)

lemma column_map: "column df k = map (\<lambda>r. cell r k) (rows df)"
  by (simp add: column_def)

lemma flatten_Inr:
  assumes "flatten df = Inr out"
  shows "rows out = map flat_row (rows df)"
    and "columns out = (let c = (if ''lat'' \<in> set (columns df) then columns df else columns df @ [''lat'']) in if ''lon'' \<in> set c then c else c @ [''lon''])"
    and "\<And>r. r \<in> set (rows df) \<Longrightarrow> \<exists>a b. lat_of_geocode (cell r ''geocode'') = Inr a \<and> lon_of_geocode (cell r ''geocode'') = Inr b"
proof -
  from assms obtain lats where l1: "map_exn lat_of_geocode (column df ''geocode'') = Inr lats"
    by (auto simp: flatten_def split: sum.splits)
  define df1 where "df1 = set_column ''lat'' lats df"
  from assms l1 obtain lons where l2: "map_exn lon_of_geocode (column df1 ''geocode'') = Inr lons"
    and o: "out = set_column ''lon'' lons df1"
    by (auto simp: flatten_def df1_def Let_def split: sum.splits)
  have lats: "lats = map lat_val (rows df)"
    using map_exn_Inr_map[OF l1] by (simp add: column_map comp_def)
  have r1: "rows df1 = map (\<lambda>r. AList.update ''lat'' (lat_val r) r) (rows df)"
    unfolding df1_def lats by (rule rows_set_column_map)
  have c1: "column df1 ''geocode'' = column df ''geocode''"
    by (simp add: column_map r1 cell_update comp_def)
  have lons: "lons = map lon_val (rows df)"
    using map_exn_Inr_map[OF l2[unfolded c1]] by (simp add: column_map comp_def)
  have "lons = map (\<lambda>r. projr (lon_of_geocode (cell r ''geocode''))) (rows df1)"
    using map_exn_Inr_map[OF l2] by (simp add: column_map comp_def)
  then have "rows out = map (\<lambda>r. AList.update ''lon'' (projr (lon_of_geocode (cell r ''geocode''))) r) (rows df1)"
    unfolding o by (simp add: rows_set_column_map)
  then show "rows out = map flat_row (rows df)"
    by (simp add: r1 comp_def cell_update)
  show "columns out = (let c = (if ''lat'' \<in> set (columns df) then columns df else columns df @ [''lat'']) in if ''lon'' \<in> set c then c else c @ [''lon''])"
    unfolding o df1_def by (simp add: columns_set_column Let_def)
  fix r assume r: "r \<in> set (rows df)"
  then have g: "cell r ''geocode'' \<in> set (column df ''geocode'')"
    by (simp add: column_map)
  from map_exn_Inr_all[OF l1 g] map_exn_Inr_all[OF l2[unfolded c1] g]
  show "\<exists>a b. lat_of_geocode (cell r ''geocode'') = Inr a \<and> lon_of_geocode (cell r ''geocode'') = Inr b"
    by blast
qed

lemma flatten_ok:
  assumes "\<And>r. r \<in> set (rows df) \<Longrightarrow> \<exists>a b. lat_of_geocode (cell r ''geocode'') = Inr a \<and> lon_of_geocode (cell r ''geocode'') = Inr b"
  shows "\<exists>out. flatten df = Inr out"
proof -
  have l1: "map_exn lat_of_geocode (column df ''geocode'') = Inr (map (\<lambda>x. projr (lat_of_geocode x)) (column df ''geocode''))"
    by (rule map_exn_all_Inr) (use assms in \<open>auto simp: column_map\<close>)
  define df1 where "df1 = set_column ''lat'' (map lat_val (rows df)) df"
  have r1: "rows df1 = map (\<lambda>r. AList.update ''lat'' (lat_val r) r) (rows df)"
    unfolding df1_def by (rule rows_set_column_map)
  have c1: "column df1 ''geocode'' = column df ''geocode''"
    by (simp add: column_map r1 cell_update comp_def)
  have l2: "map_exn lon_of_geocode (column df1 ''geocode'') = Inr (map (\<lambda>x. projr (lon_of_geocode x)) (column df ''geocode''))"
    unfolding c1 by (rule map_exn_all_Inr) (use assms in \<open>auto simp: column_map\<close>)
  have "map (\<lambda>x. projr (lat_of_geocode x)) (column df ''geocode'') = map lat_val (rows df)"
    by (simp add: column_map comp_def)
  with l1 l2 show ?thesis
    by (simp add: flatten_def df1_def Let_def)
qed

lemma extract_key_dict:
  "extract_key k (PDict kv) = Inr (case map_of kv k of None \<Rightarrow> PNone | Some v \<Rightarrow> v)"
proof (cases "map_of kv k")
  case None
  then have "k \<notin> fst ` set kv" by (simp add: map_of_eq_None_iff)
  with None show ?thesis by (simp add: extract_key_def)
next
  case (Some v)
  then have "k \<in> fst ` set kv" by (metis map_of_eq_None_iff option.distinct(1))
  moreover from this have "kv \<noteq> []" by auto
  ultimately show ?thesis using Some by (simp add: extract_key_def)
qed

lemma extract_key_none: "extract_key k PNone = Inr PNone"
  by (simp add: extract_key_def)

lemma shaped_extract:
  "geocode_shaped g \<Longrightarrow> \<exists>a b. lat_of_geocode g = Inr a \<and> lon_of_geocode g = Inr b"
  by (cases g) (simp_all add: lat_of_geocode_def lon_of_geocode_def extract_key_dict extract_key_none)

lemma shaped_null_coordinate:
  "geocode_shaped g \<Longrightarrow>
     null_coordinate g \<longleftrightarrow> isna (projr (lat_of_geocode g)) \<or> isna (projr (lon_of_geocode g))"
  by (cases g)
     (auto simp: lat_of_geocode_def lon_of_geocode_def extract_key_dict extract_key_none isna_def
           split: option.splits)

lemma complete_flat_row:
  "complete_row [''lat'', ''lon''] (flat_row r) \<longleftrightarrow> \<not> isna (lat_val r) \<and> \<not> isna (lon_val r)"
  by (simp add: complete_row_def cell_update)

lemma normalizer_Inr:
  assumes "normalizer df = Inr out"
  shows "rows out = filter (complete_row [''lat'', ''lon'']) (map flat_row (rows df))"
    and "''geocode'' \<in> set (columns df)"
    and "rows out \<noteq> []"
    and "set (columns df) \<subseteq> set (columns out)"
    and "''lat'' \<in> set (columns out)" and "''lon'' \<in> set (columns out)"
    and "\<And>r. r \<in> set (rows df) \<Longrightarrow> \<exists>a b. lat_of_geocode (cell r ''geocode'') = Inr a \<and> lon_of_geocode (cell r ''geocode'') = Inr b"
proof -
  from assms have g: "''geocode'' \<in> set (columns df)"
    by (auto simp: normalizer_def split: if_splits)
  from assms obtain df2 where f: "flatten df = Inr df2"
    and o: "out = dropna [''lat'', ''lon''] df2" and ne: "\<not> empty_df out"
    by (auto simp: normalizer_def Let_def split: if_splits sum.splits)
  note fl = flatten_Inr[OF f]
  show "rows out = filter (complete_row [''lat'', ''lon'']) (map flat_row (rows df))"
    by (simp add: o dropna_def fl(1))
  show "''geocode'' \<in> set (columns df)" by (rule g)
  show "rows out \<noteq> []" using ne by (simp add: empty_df_def)
  have c: "columns out = columns df2" by (simp add: o dropna_def)
  show "set (columns df) \<subseteq> set (columns out)"
    unfolding c fl(2) by (auto simp: Let_def)
  show "''lat'' \<in> set (columns out)" unfolding c fl(2) by (auto simp: Let_def)
  show "''lon'' \<in> set (columns out)" unfolding c fl(2) by (auto simp: Let_def)
  fix r assume "r \<in> set (rows df)"
  then show "\<exists>a b. lat_of_geocode (cell r ''geocode'') = Inr a \<and> lon_of_geocode (cell r ''geocode'') = Inr b"
    by (rule fl(3))
qed

lemma cell_flat_row_geocode: "cell (flat_row r) ''geocode'' = cell r ''geocode''"
  by (simp add: cell_update)

lemma flat_row_fixed:
  assumes "complete_row [''lat'', ''lon''] (flat_row r)"
  shows "flat_row (flat_row r) = flat_row r"
proof -
  let ?a = "lat_val r" and ?b = "lon_val r"
  have a: "map_of (flat_row r) ''lat'' = Some ?a" by (simp add: update_conv')
  have b: "map_of (flat_row r) ''lon'' = Some ?b" by (simp add: update_conv')
  have "AList.update ''lat'' ?a (flat_row r) = flat_row r" by (rule update_triv[OF a])
  moreover have "AList.update ''lon'' ?b (flat_row r) = flat_row r" by (rule update_triv[OF b])
  ultimately show ?thesis by (simp add: cell_update)
qed

section \<open>The colour table\<close>

text \<open>
  Claim C2. \<open>priority_to_color\<close> is a function of its argument alone and is defined on every
  value: \<^verbatim>\<open>'urgent'\<close> gives (255, 0, 0, 200), \<^verbatim>\<open>'high'\<close> gives (255, 255, 0, 200),
  \<^verbatim>\<open>'medium'\<close> gives (255, 165, 0, 200), and every other value, among them
  \<^verbatim>\<open>'low'\<close>, a missing value and any other string, gives (0, 200, 0, 200). The code
  returns the four channels as a list.
\<close>

theorem priority_to_color_table:
  "priority_to_color (PStr ''urgent'') = PList [PInt 255, PInt 0, PInt 0, PInt 200]
   \<and> priority_to_color (PStr ''high'') = PList [PInt 255, PInt 255, PInt 0, PInt 200]
   \<and> priority_to_color (PStr ''medium'') = PList [PInt 255, PInt 165, PInt 0, PInt 200]
   \<and> priority_to_color (PStr ''low'') = PList [PInt 0, PInt 200, PInt 0, PInt 200]
   \<and> priority_to_color PNone = PList [PInt 0, PInt 200, PInt 0, PInt 200]
   \<and> priority_to_color PNaN = PList [PInt 0, PInt 200, PInt 0, PInt 200]
   \<and> (p \<noteq> PStr ''urgent'' \<and> p \<noteq> PStr ''high'' \<and> p \<noteq> PStr ''medium''
        \<longrightarrow> priority_to_color p = PList [PInt 0, PInt 200, PInt 0, PInt 200])"
  by (simp add: priority_to_color_def rgba_def)

theorem priority_to_color_table_witness:
  "PStr ''Urgent'' \<noteq> PStr ''urgent'' \<and> PStr ''Urgent'' \<noteq> PStr ''high''
   \<and> PStr ''Urgent'' \<noteq> PStr ''medium''
   \<and> priority_to_color (PStr ''Urgent'') = PList [PInt 0, PInt 200, PInt 0, PInt 200]"
  using priority_to_color_table [of "PStr ''Urgent''"] by simp

section \<open>The normalizer's output\<close>

text \<open>
  Claim C3. Every row of a table that the normalizer returns has a value that is not missing
  under \<^verbatim>\<open>lat\<close> and under \<^verbatim>\<open>lon\<close>.
\<close>

theorem normalizer_output_has_coordinates:
  "normalizer df = Inr out \<Longrightarrow> r \<in> set (rows out) \<Longrightarrow>
     \<not> isna (cell r ''lat'') \<and> \<not> isna (cell r ''lon'')"
  by (auto simp: normalizer_Inr(1) complete_row_def)

theorem normalizer_output_has_coordinates_witness:
  "\<not> isl (normalizer sample_table)
   \<and> hd (rows (projr (normalizer sample_table))) \<in> set (rows (projr (normalizer sample_table)))
   \<and> \<not> isna (cell (hd (rows (projr (normalizer sample_table)))) ''lat'')
   \<and> \<not> isna (cell (hd (rows (projr (normalizer sample_table)))) ''lon'')"
proof -
  have a: "\<not> isl (normalizer sample_table)" by code_simp
  then obtain out where o: "normalizer sample_table = Inr out"
    by (cases "normalizer sample_table") auto
  have h: "hd (rows out) \<in> set (rows out)" using normalizer_Inr(3)[OF o] by simp
  from normalizer_output_has_coordinates [OF o h] a h o show ?thesis by simp
qed

text \<open>
  Claim C7. Running the normalizer on a table it returned succeeds again and returns a table
  with the same number of rows; it returns that very table.
\<close>

theorem normalizer_idempotent:
  assumes "normalizer df = Inr out"
  shows "(\<exists>again. normalizer out = Inr again \<and> length (rows again) = length (rows out))
         \<and> normalizer out = Inr out"
proof -
  note n = normalizer_Inr[OF assms]
  have img: "\<And>r'. r' \<in> set (rows out) \<Longrightarrow>
      \<exists>r\<in>set (rows df). r' = flat_row r \<and> complete_row [''lat'', ''lon''] (flat_row r)"
    unfolding n(1) by auto
  have ok: "\<And>r'. r' \<in> set (rows out) \<Longrightarrow>
      \<exists>a b. lat_of_geocode (cell r' ''geocode'') = Inr a \<and> lon_of_geocode (cell r' ''geocode'') = Inr b"
  proof -
    fix r' assume "r' \<in> set (rows out)"
    from img[OF this] obtain r where r: "r \<in> set (rows df)" "r' = flat_row r" by blast
    from n(7)[OF r(1)] show "\<exists>a b. lat_of_geocode (cell r' ''geocode'') = Inr a \<and> lon_of_geocode (cell r' ''geocode'') = Inr b"
      unfolding r(2) cell_flat_row_geocode .
  qed
  from flatten_ok[of out] ok obtain df2 where f: "flatten out = Inr df2" by blast
  note fl = flatten_Inr[OF f]
  have fixed: "map flat_row (rows out) = rows out"
  proof (rule map_idI)
    fix r' assume "r' \<in> set (rows out)"
    from img[OF this] obtain r where "r' = flat_row r" "complete_row [''lat'', ''lon''] (flat_row r)"
      by blast
    then show "flat_row r' = r'" by (simp only: flat_row_fixed)
  qed
  have r2: "rows df2 = rows out" using fl(1) fixed by simp
  have c2: "columns df2 = columns out" using fl(2) n(5,6) by (simp add: Let_def)
  have "df2 = out" using r2 c2 by simp
  moreover have "dropna [''lat'', ''lon''] out = out"
  proof -
    have "filter (complete_row [''lat'', ''lon'']) (rows out) = rows out"
      unfolding n(1) by simp
    then show ?thesis by (simp add: dropna_def)
  qed
  moreover have "\<not> empty_df out" using n(3,5) by (auto simp: empty_df_def)
  moreover have "''geocode'' \<in> set (columns out)" using n(2,4) by auto
  ultimately have "normalizer out = Inr out"
    using f by (simp add: normalizer_def)
  then show ?thesis by simp
qed

theorem normalizer_idempotent_witness:
  "\<not> isl (normalizer sample_table)
   \<and> normalizer (projr (normalizer sample_table)) = Inr (projr (normalizer sample_table))
   \<and> length (rows (projr (normalizer sample_table))) = 2"
proof -
  have a: "\<not> isl (normalizer sample_table)" by code_simp
  have l: "length (rows (projr (normalizer sample_table))) = 2" by code_simp
  from a obtain out where o: "normalizer sample_table = Inr out"
    by (cases "normalizer sample_table") auto
  from normalizer_idempotent [OF o] a l o show ?thesis by simp
qed

lemma normalizer_shaped:
  assumes ne: "\<not> empty_df df" and col: "''geocode'' \<in> set (columns df)"
      and shaped: "list_all geocode_shaped (column df ''geocode'')"
  shows "\<exists>df3. normalizer df =
            (if list_all null_coordinate (column df ''geocode'')
             then Inl (Halt Warning no_valid_geocodes_message) else Inr df3)
          \<and> rows df3 = map flat_row (filter (\<lambda>r. \<not> null_coordinate (cell r ''geocode'')) (rows df))
          \<and> set (columns df) \<union> {''lat'', ''lon''} \<subseteq> set (columns df3)"
proof -
  have sh: "\<And>r. r \<in> set (rows df) \<Longrightarrow> geocode_shaped (cell r ''geocode'')"
    using shaped by (simp add: list_all_iff column_map)
  from flatten_ok[of df] sh shaped_extract obtain df2 where f: "flatten df = Inr df2" by blast
  note fl = flatten_Inr[OF f]
  define df3 where "df3 = dropna [''lat'', ''lon''] df2"
  have nz: "normalizer df = (if empty_df df3 then Inl (Halt Warning no_valid_geocodes_message) else Inr df3)"
    using ne col f by (simp add: normalizer_def df3_def)
  have keep: "\<And>r. r \<in> set (rows df) \<Longrightarrow>
      complete_row [''lat'', ''lon''] (flat_row r) \<longleftrightarrow> \<not> null_coordinate (cell r ''geocode'')"
    using shaped_null_coordinate[OF sh] by (simp add: complete_flat_row)
  have r3: "rows df3 = map flat_row (filter (\<lambda>r. \<not> null_coordinate (cell r ''geocode'')) (rows df))"
  proof -
    have "rows df3 = map flat_row (filter (\<lambda>r. complete_row [''lat'', ''lon''] (flat_row r)) (rows df))"
      by (simp add: df3_def dropna_def fl(1) filter_map comp_def)
    also have "filter (\<lambda>r. complete_row [''lat'', ''lon''] (flat_row r)) (rows df)
        = filter (\<lambda>r. \<not> null_coordinate (cell r ''geocode'')) (rows df)"
      by (rule filter_cong) (simp_all add: keep)
    finally show ?thesis .
  qed
  have c3: "set (columns df) \<union> {''lat'', ''lon''} \<subseteq> set (columns df3)"
    by (auto simp: df3_def dropna_def fl(2) Let_def)
  have "columns df3 \<noteq> []" using c3 by auto
  then have e3: "empty_df df3 \<longleftrightarrow> list_all null_coordinate (column df ''geocode'')"
    by (auto simp: empty_df_def r3 filter_empty_conv list_all_iff column_map)
  from nz e3 r3 c3 show ?thesis by auto
qed

lemma null_coordinate_extract:
  assumes nc: "null_coordinate g"
  shows "\<exists>a b. lat_of_geocode g = Inr a \<and> lon_of_geocode g = Inr b \<and> (isna a \<or> isna b)"
proof -
  from nc have gs: "geocode_shaped g" by (cases g) simp_all
  from shaped_extract[OF gs] obtain a b where ab: "lat_of_geocode g = Inr a" "lon_of_geocode g = Inr b"
    by blast
  with shaped_null_coordinate[OF gs] nc have "isna a \<or> isna b" by simp
  with ab show ?thesis by blast
qed

section \<open>Facts about the presenter and the metrics\<close>

lemma bind_exn_Inr: "bind_exn m f = Inr y \<longleftrightarrow> (\<exists>a. m = Inr a \<and> f a = Inr y)"
  by (cases m) (simp_all add: bind_exn_def)

lemma map_exn_length: "map_exn f xs = Inr ys \<Longrightarrow> length ys = length xs"
  by (induction xs arbitrary: ys) (auto split: sum.splits)

lemma column_set_column_other:
  assumes "length vs = length (rows df)" and "k' \<noteq> k"
  shows "column (set_column k vs df) k' = column df k'"
proof -
  have "column (set_column k vs df) k' = map (\<lambda>(r, v). cell r k') (zip (rows df) vs)"
    using assms(2) by (simp add: column_map set_column_def cell_update comp_def case_prod_unfold)
  also have "\<dots> = map (\<lambda>r. cell r k') (map fst (zip (rows df) vs))"
    by (simp add: comp_def case_prod_unfold)
  also have "\<dots> = column df k'"
    using assms(1) by (simp add: column_map)
  finally show ?thesis .
qed

lemma length_rows_set_column:
  "length vs = length (rows df) \<Longrightarrow> length (rows (set_column k vs df)) = length (rows df)"
  by (simp add: set_column_def)

lemma add_tooltip_Inr:
  assumes "add_tooltip rp df = Inr out"
  shows "length (rows out) = length (rows df)"
    and "k \<noteq> ''tooltip'' \<Longrightarrow> column out k = column df k"
    and "set (columns df) \<subseteq> set (columns out)"
proof -
  from assms obtain ts where t: "map_exn (tooltip_of_row rp) (rows df) = Inr ts"
    and o: "out = set_column ''tooltip'' (map PStr ts) df"
    by (auto simp: add_tooltip_def bind_exn_Inr)
  have l: "length (map PStr ts) = length (rows df)" using map_exn_length[OF t] by simp
  show "length (rows out) = length (rows df)"
    unfolding o by (rule length_rows_set_column[OF l])
  show "k \<noteq> ''tooltip'' \<Longrightarrow> column out k = column df k"
    unfolding o by (rule column_set_column_other[OF l])
  show "set (columns df) \<subseteq> set (columns out)"
    unfolding o by (auto simp: columns_set_column)
qed

lemma add_color_Inr:
  assumes "add_color df = Inr out"
  shows "rows out = map (\<lambda>r. AList.update ''color'' (priority_to_color (cell r ''priority_status'')) r) (rows df)"
    and "''priority_status'' \<in> set (columns df)"
    and "set (columns df) \<subseteq> set (columns out)"
proof -
  from assms have c: "''priority_status'' \<in> set (columns df)"
    and o: "out = set_column ''color'' (map priority_to_color (column df ''priority_status'')) df"
    by (auto simp: add_color_def bind_exn_Inr get_column_def split: if_splits)
  have "map priority_to_color (column df ''priority_status'')
      = map (\<lambda>r. priority_to_color (cell r ''priority_status'')) (rows df)"
    by (simp add: column_map comp_def)
  then show "rows out = map (\<lambda>r. AList.update ''color'' (priority_to_color (cell r ''priority_status'')) r) (rows df)"
    unfolding o by (simp only: rows_set_column_map)
  show "''priority_status'' \<in> set (columns df)" by (rule c)
  show "set (columns df) \<subseteq> set (columns out)"
    unfolding o by (auto simp: columns_set_column)
qed

lemma add_color_cells:
  assumes "add_color df = Inr out"
  shows "length (rows out) = length (rows df)"
    and "k \<noteq> ''color'' \<Longrightarrow> column out k = column df k"
    and "r \<in> set (rows out) \<Longrightarrow> cell r ''color'' = priority_to_color (cell r ''priority_status'')"
proof -
  note a = add_color_Inr[OF assms]
  show "length (rows out) = length (rows df)" by (simp add: a(1))
  show "k \<noteq> ''color'' \<Longrightarrow> column out k = column df k"
    by (simp add: column_map a(1) comp_def cell_update)
  show "r \<in> set (rows out) \<Longrightarrow> cell r ''color'' = priority_to_color (cell r ''priority_status'')"
    by (auto simp: a(1) cell_update)
qed

lemma render_Inr:
  assumes "render rp df0 = Inr p"
  shows "\<exists>df1. add_tooltip rp df0 = Inr df1 \<and> add_color df1 = Inr (layer_data p)"
    and "select_columns display_columns (layer_data p) = Inr (table_view p)"
    and "select_columns display_columns (layer_data p) = Inr (csv_source p)"
    and "total_queries p = length (rows (layer_data p))"
    and "get_column (layer_data p) ''region'' = Inr (column (layer_data p) ''region'')"
    and "nunique (column (layer_data p) ''region'') = Inr (number_of_regions p)"
    and "urgent_queries p = length (filter (\<lambda>v. v = PStr ''urgent'') (column (layer_data p) ''priority_status''))"
  using assms
  by (auto simp: render_def bind_exn_Inr get_column_def split: if_splits)

lemma nunique_Inr:
  "nunique vs = Inr n \<Longrightarrow> n = card (py_key ` {v \<in> set vs. \<not> isna v})"
proof -
  assume "nunique vs = Inr n"
  then have "n = length (remdups (map py_key (filter (\<lambda>v. \<not> isna v) vs)))"
    by (simp add: nunique_def split: if_splits)
  also have "\<dots> = card (set (map py_key (filter (\<lambda>v. \<not> isna v) vs)))"
    by (rule length_remdups_card_conv)
  finally show ?thesis by simp
qed

lemma py_key_labels:
  assumes "\<forall>v\<in>set vs. \<exists>s. v = PStr s"
  shows "py_key ` {v \<in> set vs. \<not> isna v} = set vs"
proof -
  have "\<And>v. v \<in> set vs \<Longrightarrow> \<not> isna v \<and> py_key v = v"
    using assms by (auto simp: isna_def)
  then show ?thesis by force
qed

section \<open>Colour, tooltip and key metrics\<close>

text \<open>
  Claim C8. The colour column is computed from the priority column alone (line 70): two rows,
  of the same table or of the tables of two runs, that agree on \<^verbatim>\<open>priority_status\<close>
  carry the same colour, whatever their other cells hold.
\<close>

theorem color_is_function_of_priority:
  "add_color df1 = Inr out1 \<Longrightarrow> add_color df2 = Inr out2 \<Longrightarrow>
   r1 \<in> set (rows out1) \<Longrightarrow> r2 \<in> set (rows out2) \<Longrightarrow>
   cell r1 ''priority_status'' = cell r2 ''priority_status'' \<Longrightarrow>
   cell r1 ''color'' = cell r2 ''color''"
  by (simp add: add_color_cells(3))

theorem color_is_function_of_priority_witness:
  "\<not> isl (add_color sample_table) \<and> \<not> isl (add_color (DataFrame [second_urgent_record]))
   \<and> cell (rows (projr (add_color sample_table)) ! 1) ''query_id'' = PInt 1
   \<and> cell (rows (projr (add_color (DataFrame [second_urgent_record]))) ! 0) ''query_id'' = PInt 5
   \<and> cell (rows (projr (add_color sample_table)) ! 1) ''region''
       \<noteq> cell (rows (projr (add_color (DataFrame [second_urgent_record]))) ! 0) ''region''
   \<and> cell (rows (projr (add_color sample_table)) ! 1) ''priority_status''
       = cell (rows (projr (add_color (DataFrame [second_urgent_record]))) ! 0) ''priority_status''
   \<and> cell (rows (projr (add_color sample_table)) ! 1) ''color''
       = cell (rows (projr (add_color (DataFrame [second_urgent_record]))) ! 0) ''color''"
proof -
  let ?a = "add_color sample_table" and ?b = "add_color (DataFrame [second_urgent_record])"
  have a: "\<not> isl ?a" by code_simp
  have b: "\<not> isl ?b" by code_simp
  from a obtain o1 where o1: "?a = Inr o1" by (cases ?a) auto
  from b obtain o2 where o2: "?b = Inr o2" by (cases ?b) auto
  have l1: "1 < length (rows (projr ?a))" by code_simp
  have l2: "0 < length (rows (projr ?b))" by code_simp
  have r1: "rows o1 ! 1 \<in> set (rows o1)" using l1 o1 by simp
  have r2: "rows o2 ! 0 \<in> set (rows o2)" using l2 o2 by simp
  have i1: "cell (rows (projr ?a) ! 1) ''query_id'' = PInt 1" by code_simp
  have i2: "cell (rows (projr ?b) ! 0) ''query_id'' = PInt 5" by code_simp
  have g: "cell (rows (projr ?a) ! 1) ''region'' \<noteq> cell (rows (projr ?b) ! 0) ''region''"
    by code_simp
  have e: "cell (rows (projr ?a) ! 1) ''priority_status''
      = cell (rows (projr ?b) ! 0) ''priority_status''"
    by code_simp
  have "cell (rows o1 ! 1) ''priority_status'' = cell (rows o2 ! 0) ''priority_status''"
    using e o1 o2 by simp
  from color_is_function_of_priority [OF o1 o2 r1 r2 this]
  have c: "cell (rows (projr ?a) ! 1) ''color'' = cell (rows (projr ?b) ! 0) ''color''"
    using o1 o2 by simp
  show ?thesis by (intro conjI a b i1 i2 g e c)
qed

text \<open>
  Claim C9. The three key metrics of a table that is rendered are its number of rows, the
  number of distinct values in its region column and the number of its rows whose
  \<^verbatim>\<open>priority_status\<close> is \<^verbatim>\<open>'urgent'\<close>. \<^verbatim>\<open>nunique\<close> counts the values that are
  not missing, up to Python's equality; for a region column of labels this is the number of
  elements of the set of its cells.
\<close>

theorem key_metrics:
  assumes "render rp df = Inr p"
  shows "total_queries p = length (rows df)
       \<and> number_of_regions p = card (py_key ` {v \<in> set (column df ''region''). \<not> isna v})
       \<and> urgent_queries p
           = length (filter (\<lambda>r. cell r ''priority_status'' = PStr ''urgent'') (rows df))
       \<and> ((\<forall>v\<in>set (column df ''region''). \<exists>s. v = PStr s)
            \<longrightarrow> number_of_regions p = card (set (column df ''region'')))"
proof -
  note r = render_Inr[OF assms]
  from r(1) obtain df1 where t: "add_tooltip rp df = Inr df1"
    and c: "add_color df1 = Inr (layer_data p)" by blast
  have len: "length (rows (layer_data p)) = length (rows df)"
    using add_color_cells(1)[OF c] add_tooltip_Inr(1)[OF t] by simp
  have reg: "column (layer_data p) ''region'' = column df ''region''"
    using add_color_cells(2)[OF c, of "''region''"] add_tooltip_Inr(2)[OF t, of "''region''"]
    by simp
  have pri: "column (layer_data p) ''priority_status'' = column df ''priority_status''"
    using add_color_cells(2)[OF c, of "''priority_status''"]
      add_tooltip_Inr(2)[OF t, of "''priority_status''"]
    by simp
  have n: "number_of_regions p = card (py_key ` {v \<in> set (column df ''region''). \<not> isna v})"
    using nunique_Inr[OF r(6)] by (simp only: reg)
  have u: "urgent_queries p
      = length (filter (\<lambda>r. cell r ''priority_status'' = PStr ''urgent'') (rows df))"
    unfolding r(7) pri by (simp add: column_map filter_map comp_def)
  show ?thesis
    using r(4) len n u py_key_labels[of "column df ''region''"] by simp
qed

theorem key_metrics_witness:
  "\<not> isl (render no_repr (projr (normalizer sample_table)))
   \<and> total_queries (projr (render no_repr (projr (normalizer sample_table)))) = 2
   \<and> number_of_regions (projr (render no_repr (projr (normalizer sample_table)))) = 1
   \<and> urgent_queries (projr (render no_repr (projr (normalizer sample_table)))) = 1"
proof -
  let ?t = "projr (normalizer sample_table)"
  have a: "\<not> isl (render no_repr ?t)" by code_simp
  then obtain p where p: "render no_repr ?t = Inr p"
    by (cases "render no_repr ?t") auto
  have l: "length (rows ?t) = 2" by code_simp
  have col: "column ?t ''region'' = [PStr ''Gauteng'', PStr ''Gauteng'']" by code_simp
  have s: "\<forall>v\<in>set (column ?t ''region''). \<exists>s. v = PStr s" by (simp add: col)
  have c: "card (set (column ?t ''region'')) = 1" by (simp add: col)
  have u: "length (filter (\<lambda>r. cell r ''priority_status'' = PStr ''urgent'') (rows ?t)) = 1"
    by code_simp
  from key_metrics [OF p] a p l s c u show ?thesis by simp
qed

text \<open>
  Claim C5, as amended. For a row with the six core fields the tooltip is the fixed
  template with the labels \<^verbatim>\<open>ID: \<close>, \<^verbatim>\<open>Address: \<close>, \<^verbatim>\<open>Region: \<close>,
  \<^verbatim>\<open>Status: \<close>, \<^verbatim>\<open>Priority: \<close> and \<^verbatim>\<open>description: \<close>, filled with
  \<^verbatim>\<open>query_id\<close>, \<^verbatim>\<open>query_address\<close>, \<^verbatim>\<open>region\<close>, \<^verbatim>\<open>query_status\<close>,
  \<^verbatim>\<open>priority_status\<close> and \<^verbatim>\<open>query_description\<close> in this order, the fields
  separated by five newlines and the last one followed by a space: a text of six lines when no
  field contains a newline. For \<^verbatim>\<open>query_id\<close> 1 it starts with \<^verbatim>\<open>ID: 1\<close> and a
  newline.
\<close>

theorem tooltip_template:
  assumes "map_of x ''query_id'' = Some qid"
      and "map_of x ''query_address'' = Some address"
      and "map_of x ''region'' = Some region"
      and "map_of x ''query_status'' = Some status"
      and "map_of x ''priority_status'' = Some priority"
      and "map_of x ''query_description'' = Some description"
  shows "tooltip_of_row rp x =
           Inr (''ID: '' @ py_format rp qid @ ''\<newline>''
              @ ''Address: '' @ py_format rp address @ ''\<newline>''
              @ ''Region: '' @ py_format rp region @ ''\<newline>''
              @ ''Status: '' @ py_format rp status @ ''\<newline>''
              @ ''Priority: '' @ py_format rp priority @ ''\<newline>''
              @ ''description: '' @ py_format rp description @ '' '')
       \<and> ((\<forall>v\<in>{qid, address, region, status, priority, description}.
              CHR 0x0A \<notin> set (py_format rp v))
            \<longrightarrow> line_count (projr (tooltip_of_row rp x)) = 6)
       \<and> (qid = PInt 1 \<longrightarrow> prefix ''ID: 1\<newline>'' (projr (tooltip_of_row rp x)))"
proof -
  have t: "tooltip_of_row rp x =
           Inr (''ID: '' @ py_format rp qid @ ''\<newline>''
              @ ''Address: '' @ py_format rp address @ ''\<newline>''
              @ ''Region: '' @ py_format rp region @ ''\<newline>''
              @ ''Status: '' @ py_format rp status @ ''\<newline>''
              @ ''Priority: '' @ py_format rp priority @ ''\<newline>''
              @ ''description: '' @ py_format rp description @ '' '')"
    using assms by (simp add: tooltip_of_row_def field_def bind_exn_def)
  have nl: "CHR 0x0A \<notin> set s \<Longrightarrow> filter (\<lambda>c. c = CHR 0x0A) s = []" for s
    by (induction s) auto
  have l: "(\<forall>v\<in>{qid, address, region, status, priority, description}.
              CHR 0x0A \<notin> set (py_format rp v))
            \<longrightarrow> line_count (projr (tooltip_of_row rp x)) = 6"
    unfolding t by (simp add: line_count_def nl)
  have one: "str_of_int 1 = ''1''"
    by (simp add: str_of_int_def digit_char_def)
  have p: "qid = PInt 1 \<longrightarrow> prefix ''ID: 1\<newline>'' (projr (tooltip_of_row rp x))"
    unfolding t by (simp add: one)
  from t l p show ?thesis by blast
qed

theorem tooltip_template_witness:
  "tooltip_of_row no_repr urgent_record =
     Inr ''ID: 1\<newline>Address: 12 Main Rd\<newline>Region: Gauteng\<newline>Status: open\<newline>Priority: urgent\<newline>description: pothole ''
   \<and> line_count (projr (tooltip_of_row no_repr urgent_record)) = 6
   \<and> prefix ''ID: 1\<newline>'' (projr (tooltip_of_row no_repr urgent_record))"
  using tooltip_template [of urgent_record "PInt 1" "PStr ''12 Main Rd''" "PStr ''Gauteng''"
      "PStr ''open''" "PStr ''urgent''" "PStr ''pothole''" no_repr]
  by (simp add: urgent_record_def str_of_int_def digit_char_def line_count_def)

text \<open>
  Claim C5 as it is stated speaks of a template of five lines. The tooltip of the sample
  record, none of whose fields contains a newline, has six lines.
\<close>

theorem tooltip_five_lines_counterexample:
  "tooltip_of_row no_repr urgent_record =
     Inr ''ID: 1\<newline>Address: 12 Main Rd\<newline>Region: Gauteng\<newline>Status: open\<newline>Priority: urgent\<newline>description: pothole ''
   \<and> line_count (projr (tooltip_of_row no_repr urgent_record)) = 6
   \<and> line_count (projr (tooltip_of_row no_repr urgent_record)) \<noteq> 5"
  by (simp add: tooltip_of_row_def field_def bind_exn_def urgent_record_def str_of_int_def
      digit_char_def line_count_def)

section \<open>A record without the geocode key among records that have it\<close>

text \<open>
  Claim C1. The claim asks for a missing \<^verbatim>\<open>lat\<close> and \<^verbatim>\<open>lon\<close> wherever the
  geocode is absent. When one record has a geocode and another record has no
  \<^verbatim>\<open>geocode\<close> key at all, the table holds \<^verbatim>\<open>nan\<close> in that cell;
  \<^verbatim>\<open>nan\<close> is true, so the lambdas of lines 40 and 41 go on to \<^verbatim>\<open>"lat" in x\<close>,
  which raises \<^verbatim>\<open>TypeError\<close> on a float, and no coordinate is extracted for any record.
\<close>

theorem missing_geocode_key_raises:
  "column (DataFrame [urgent_record, no_geocode_record]) ''geocode'' = [johannesburg, PNaN]
   \<and> lat_of_geocode PNaN = Inl TypeError
   \<and> lon_of_geocode PNaN = Inl TypeError
   \<and> flatten (DataFrame [urgent_record, no_geocode_record]) = Inl TypeError"
  by code_simp

text \<open>
  Claim C4. For the same kind of input the script ends with the uncaught
  \<^verbatim>\<open>TypeError\<close> between the second and the third checkpoint: it stops at none of the
  three checkpoints and does not render the page.
\<close>

theorem run_stops_outside_checkpoints:
  "run rp (Body [no_geocode_record, low_record]) = Inl (Uncaught TypeError)"
  by code_simp

text \<open>
  On a geocode that is a structure or \<^verbatim>\<open>null\<close> the two lambdas return the value
  under \<^verbatim>\<open>lat\<close> (under \<^verbatim>\<open>lng\<close>, for the column \<^verbatim>\<open>lon\<close>) when the
  structure has the key, and \<^verbatim>\<open>None\<close> otherwise.
\<close>

theorem extraction_on_structure_or_null:
  "lat_of_geocode (PDict kv) = Inr (case map_of kv ''lat'' of None \<Rightarrow> PNone | Some v \<Rightarrow> v)
   \<and> lon_of_geocode (PDict kv) = Inr (case map_of kv ''lng'' of None \<Rightarrow> PNone | Some v \<Rightarrow> v)
   \<and> lat_of_geocode PNone = Inr PNone
   \<and> lon_of_geocode PNone = Inr PNone"
  by (simp add: lat_of_geocode_def lon_of_geocode_def extract_key_dict extract_key_none)

section \<open>The checkpoints on records of the documented shape\<close>

lemma set_first_seen: "set (first_seen xs) = set xs"
  by (simp add: first_seen_def)

lemma columns_DataFrame: "set (columns (DataFrame data)) = (\<Union>d\<in>set data. fst ` set d)"
  by (auto simp: DataFrame_def Let_def set_first_seen)

lemma map_of_tabulate:
  "map_of (map (\<lambda>c. (c, f c)) cs) k = (if k \<in> set cs then Some (f k) else None)"
  by (induction cs) auto

lemma rows_DataFrame:
  "rows (DataFrame data) = map (\<lambda>d. map (\<lambda>c. (c, cell d c)) (columns (DataFrame data))) data"
  by (simp add: DataFrame_def Let_def)

lemma DataFrame_row:
  assumes "r \<in> set (rows (DataFrame data))"
  shows "\<exists>d\<in>set data. \<forall>k. map_of r k =
           (if k \<in> set (columns (DataFrame data)) then Some (cell d k) else None)"
  using assms by (auto simp: rows_DataFrame map_of_tabulate)

lemma column_DataFrame:
  "k \<in> set (columns (DataFrame data)) \<Longrightarrow> column (DataFrame data) k = map (\<lambda>d. cell d k) data"
  by (simp add: column_map rows_DataFrame comp_def cell_def map_of_tabulate)

lemma tooltip_ok:
  assumes "\<And>k. k \<in> set core_fields \<Longrightarrow> \<exists>v. map_of r k = Some v"
  shows "\<exists>t. tooltip_of_row rp r = Inr t"
proof -
  from assms[of "''query_id''"] obtain v1 where 1: "map_of r ''query_id'' = Some v1"
    by (auto simp: core_fields_def)
  from assms[of "''query_address''"] obtain v2 where 2: "map_of r ''query_address'' = Some v2"
    by (auto simp: core_fields_def)
  from assms[of "''region''"] obtain v3 where 3: "map_of r ''region'' = Some v3"
    by (auto simp: core_fields_def)
  from assms[of "''query_status''"] obtain v4 where 4: "map_of r ''query_status'' = Some v4"
    by (auto simp: core_fields_def)
  from assms[of "''priority_status''"] obtain v5 where 5: "map_of r ''priority_status'' = Some v5"
    by (auto simp: core_fields_def)
  from assms[of "''query_description''"] obtain v6 where 6: "map_of r ''query_description'' = Some v6"
    by (auto simp: core_fields_def)
  show ?thesis
    by (simp add: tooltip_of_row_def field_def bind_exn_def 1 2 3 4 5 6)
qed

lemma select_columns_ok:
  "set ks \<subseteq> set (columns df) \<Longrightarrow> \<exists>out. select_columns ks df = Inr out"
proof -
  assume "set ks \<subseteq> set (columns df)"
  then have "filter (\<lambda>k. k \<notin> set (columns df)) ks = []"
    by (auto simp: filter_empty_conv)
  then show ?thesis by (simp add: select_columns_def)
qed

lemma render_ok:
  assumes keys: "\<And>r k. r \<in> set (rows df) \<Longrightarrow> k \<in> set core_fields \<Longrightarrow>
                   \<exists>v. map_of r k = Some v \<and> hashable v"
      and cols: "set display_columns \<subseteq> set (columns df)"
  shows "\<exists>p. render rp df = Inr p"
proof -
  have "\<forall>r\<in>set (rows df). \<exists>t. tooltip_of_row rp r = Inr t"
    using keys tooltip_ok by blast
  from map_exn_all_Inr[OF this] obtain ts where
    ts: "map_exn (tooltip_of_row rp) (rows df) = Inr ts" by blast
  define df1 where "df1 = set_column ''tooltip'' (map PStr ts) df"
  have t: "add_tooltip rp df = Inr df1"
    by (simp add: add_tooltip_def bind_exn_def ts df1_def)
  note t1 = add_tooltip_Inr[OF t]
  have pcol: "''priority_status'' \<in> set (columns df)" and rcol: "''region'' \<in> set (columns df)"
    using cols by (auto simp: display_columns_def)
  define df2 where
    "df2 = set_column ''color'' (map priority_to_color (column df1 ''priority_status'')) df1"
  have c: "add_color df1 = Inr df2"
    using pcol t1(3) by (auto simp: add_color_def bind_exn_def get_column_def df2_def)
  note c1 = add_color_Inr[OF c] and c2 = add_color_cells[OF c]
  have sub: "set (columns df) \<subseteq> set (columns df2)" using t1(3) c1(3) by blast
  from select_columns_ok[of display_columns df2] cols sub obtain shown where
    s: "select_columns display_columns df2 = Inr shown" by blast
  have g1: "get_column df2 ''region'' = Inr (column df2 ''region'')"
    using rcol sub by (auto simp: get_column_def)
  have g2: "get_column df2 ''priority_status'' = Inr (column df2 ''priority_status'')"
    using pcol sub by (auto simp: get_column_def)
  have reg: "column df2 ''region'' = column df ''region''"
    using c2(2)[of "''region''"] t1(2)[of "''region''"] by simp
  have "list_all hashable (column df ''region'')"
  proof -
    have "hashable (cell r ''region'')" if "r \<in> set (rows df)" for r
      using keys[OF that, of "''region''"] by (auto simp: core_fields_def cell_def)
    then show ?thesis by (simp add: list_all_iff column_map)
  qed
  then obtain n where n: "nunique (column df2 ''region'') = Inr n"
    by (simp add: nunique_def reg)
  show ?thesis
    by (simp add: render_def bind_exn_def t c s g1 g2 n)
qed

lemma query_record_keys:
  assumes "query_record d"
  shows "\<And>k. k \<in> set core_fields \<Longrightarrow> \<exists>v. map_of d k = Some v \<and> hashable v"
    and "\<exists>g. map_of d ''geocode'' = Some g \<and> geocode_shaped g"
  using assms by (auto simp: query_record_def list_all_iff split: option.splits)

lemma run_on_query_records:
  assumes nonempty: "data \<noteq> []" and shape: "list_all query_record data"
  shows "if list_all (\<lambda>d. null_coordinate (cell d ''geocode'')) data
         then run rp (Body data) = Inl (Halt Warning no_valid_geocodes_message)
         else (\<exists>p. run rp (Body data) = Inr p)"
proof -
  let ?df = "DataFrame data"
  have qr: "\<And>d. d \<in> set data \<Longrightarrow> query_record d"
    using shape by (simp add: list_all_iff)
  from nonempty obtain d0 where d0: "d0 \<in> set data" by (cases data) auto
  have incols: "k \<in> set (columns ?df)" if "k \<in> set core_fields \<or> k = ''geocode''" for k
  proof -
    from that query_record_keys[OF qr[OF d0]] obtain v where "map_of d0 k = Some v" by blast
    then have "k \<in> fst ` set d0" by (metis map_of_eq_None_iff option.distinct(1))
    with d0 show ?thesis by (auto simp: columns_DataFrame)
  qed
  have gcol: "''geocode'' \<in> set (columns ?df)" using incols by simp
  have ne: "\<not> empty_df ?df"
    using gcol nonempty by (auto simp: empty_df_def rows_DataFrame)
  have gc: "column ?df ''geocode'' = map (\<lambda>d. cell d ''geocode'') data"
    by (rule column_DataFrame[OF gcol])
  have "geocode_shaped (cell d ''geocode'')" if "d \<in> set data" for d
    using query_record_keys(2)[OF qr[OF that]] by (auto simp: cell_def)
  then have shaped: "list_all geocode_shaped (column ?df ''geocode'')"
    unfolding gc by (simp add: list_all_iff)
  from normalizer_shaped[OF ne gcol shaped] obtain df3 where
    nz: "normalizer ?df =
            (if list_all null_coordinate (column ?df ''geocode'')
             then Inl (Halt Warning no_valid_geocodes_message) else Inr df3)"
    and r3: "rows df3 = map flat_row (filter (\<lambda>r. \<not> null_coordinate (cell r ''geocode'')) (rows ?df))"
    and c3: "set (columns ?df) \<union> {''lat'', ''lon''} \<subseteq> set (columns df3)"
    by blast
  have all: "list_all null_coordinate (column ?df ''geocode'')
      \<longleftrightarrow> list_all (\<lambda>d. null_coordinate (cell d ''geocode'')) data"
    by (simp add: gc list_all_iff)
  have keys: "\<exists>v. map_of r' k = Some v \<and> hashable v"
    if "r' \<in> set (rows df3)" and k: "k \<in> set core_fields" for r' k
  proof -
    from that(1) obtain r where r: "r \<in> set (rows ?df)" and r': "r' = flat_row r"
      unfolding r3 by auto
    from DataFrame_row[OF r] obtain d where d: "d \<in> set data"
      and m: "\<And>k. map_of r k = (if k \<in> set (columns ?df) then Some (cell d k) else None)"
      by blast
    from query_record_keys(1)[OF qr[OF d] k] obtain v where v: "map_of d k = Some v" "hashable v"
      by blast
    have "k \<noteq> ''lat''" "k \<noteq> ''lon''" using k by (auto simp: core_fields_def)
    then have "map_of r' k = map_of r k" unfolding r' by (simp add: update_conv')
    also have "\<dots> = Some (cell d k)" using m incols k by simp
    also have "cell d k = v" using v(1) by (simp add: cell_def)
    finally show ?thesis using v(2) by simp
  qed
  have cols: "set display_columns \<subseteq> set (columns df3)"
  proof
    fix k assume "k \<in> set display_columns"
    then have "k \<in> set core_fields \<or> k = ''lat'' \<or> k = ''lon''"
      by (auto simp: display_columns_def core_fields_def)
    with incols c3 show "k \<in> set (columns df3)" by auto
  qed
  from render_ok[of df3 rp] keys cols obtain p where p: "render rp df3 = Inr p" by blast
  show ?thesis
    using nz all p by (simp add: run_def)
qed

lemma run_without_geocode:
  assumes "list_all (\<lambda>d. ''geocode'' \<notin> set (map fst d)) data"
  shows "run rp (Body data) = Inl (Halt Info no_data_message)"
proof -
  have "''geocode'' \<notin> set (columns (DataFrame data))"
    using assms by (auto simp: columns_DataFrame list_all_iff)
  then show ?thesis by (simp add: run_def normalizer_def)
qed

text \<open>
  The script stops with a message at three places, in this order. A failed request or a body
  that does not parse stops it with the error message. A collection in which no record has a
  \<^verbatim>\<open>geocode\<close> key, the empty collection among them, stops it with the information
  message. A non-empty collection of records of the documented shape stops it with the
  warning when every geocode yields a missing coordinate, and is rendered otherwise. The three
  messages differ.
\<close>

theorem run_outcomes:
  "run rp (Failed e) = Inl (Halt Error (fetch_error_message e))
   \<and> (list_all (\<lambda>d. ''geocode'' \<notin> set (map fst d)) data
        \<longrightarrow> run rp (Body data) = Inl (Halt Info no_data_message))
   \<and> (data \<noteq> [] \<and> list_all query_record data
        \<longrightarrow> (if list_all (\<lambda>d. null_coordinate (cell d ''geocode'')) data
             then run rp (Body data) = Inl (Halt Warning no_valid_geocodes_message)
             else (\<exists>p. run rp (Body data) = Inr p)))
   \<and> no_data_message \<noteq> no_valid_geocodes_message
   \<and> fetch_error_message e \<noteq> no_data_message
   \<and> fetch_error_message e \<noteq> no_valid_geocodes_message"
proof -
  have m: "no_data_message \<noteq> no_valid_geocodes_message
      \<and> fetch_error_message e \<noteq> no_data_message
      \<and> fetch_error_message e \<noteq> no_valid_geocodes_message"
    by (simp add: no_data_message_def no_valid_geocodes_message_def fetch_error_message_def)
  have f: "run rp (Failed e) = Inl (Halt Error (fetch_error_message e))"
    by (simp add: run_def)
  from f m run_without_geocode[of data rp] run_on_query_records[of data rp]
  show ?thesis by blast
qed

theorem run_outcomes_witness:
  "run no_repr (Body []) = Inl (Halt Info no_data_message)
   \<and> run no_repr (Body [null_geocode_record]) = Inl (Halt Warning no_valid_geocodes_message)
   \<and> \<not> isl (run no_repr (Body [null_geocode_record, urgent_record, low_record]))"
proof -
  have a: "list_all (\<lambda>d. ''geocode'' \<notin> set (map fst d)) []" by simp
  have b: "[null_geocode_record] \<noteq> [] \<and> list_all query_record [null_geocode_record]"
    by code_simp
  have b': "list_all (\<lambda>d. null_coordinate (cell d ''geocode'')) [null_geocode_record]"
    by code_simp
  have c: "[null_geocode_record, urgent_record, low_record] \<noteq> []
      \<and> list_all query_record [null_geocode_record, urgent_record, low_record]"
    by code_simp
  have c': "\<not> list_all (\<lambda>d. null_coordinate (cell d ''geocode''))
      [null_geocode_record, urgent_record, low_record]"
    by code_simp
  from run_outcomes [of no_repr "[]" "[]"] a
  have 1: "run no_repr (Body []) = Inl (Halt Info no_data_message)" by blast
  from run_outcomes [of no_repr "[]" "[null_geocode_record]"] b b'
  have 2: "run no_repr (Body [null_geocode_record]) = Inl (Halt Warning no_valid_geocodes_message)"
    by presburger
  from run_outcomes [of no_repr "[]" "[null_geocode_record, urgent_record, low_record]"] c c'
  have 3: "\<exists>p. run no_repr (Body [null_geocode_record, urgent_record, low_record]) = Inr p"
    by presburger
  from 1 2 3 show ?thesis by auto
qed

section \<open>The CSV export read back\<close>

lemma read_plain:
  "\<forall>c\<in>set s. \<not> special_char c \<Longrightarrow>
     read_from InPlain cur row acc (s @ rest) = read_from InPlain (rev s @ cur) row acc rest"
  by (induction s arbitrary: cur) (auto simp: special_char_def)

lemma read_quoted:
  "read_from InQuoted cur row acc (escape_quotes s @ CHR 0x22 # rest)
     = read_from AfterQuote (rev s @ cur) row acc rest"
  by (induction s arbitrary: cur) (auto simp: escape_quotes_def)

lemma read_field:
  assumes st: "st = LineStart \<or> st = FieldStart"
      and d: "d = CHR '','' \<or> d = CHR 0x0A"
      and ok: "\<not> (st = LineStart \<and> f = [] \<and> d = CHR 0x0A)"
  shows "read_from st [] row acc (quote_field f @ d # rest)
       = (if d = CHR '','' then read_from FieldStart [] (f # row) acc rest
          else read_from LineStart [] [] (rev (f # row) # acc) rest)"
proof (cases "needs_quotes f")
  case True
  then have "read_from st [] row acc (quote_field f @ d # rest)
      = read_from InQuoted [] row acc (escape_quotes f @ CHR 0x22 # d # rest)"
    using st by (auto simp: quote_field_def)
  also have "\<dots> = read_from AfterQuote (rev f) row acc (d # rest)"
    by (simp add: read_quoted)
  finally show ?thesis using d by auto
next
  case False
  then have plain: "\<forall>c\<in>set f. \<not> special_char c"
    by (simp add: needs_quotes_def list_ex_iff)
  show ?thesis
  proof (cases f)
    case Nil
    with False st d ok show ?thesis by (auto simp: quote_field_def)
  next
    case (Cons c cs)
    with plain have c: "\<not> special_char c" and cs: "\<forall>c\<in>set cs. \<not> special_char c" by auto
    have "read_from st [] row acc (quote_field f @ d # rest)
        = read_from InPlain [c] row acc (cs @ d # rest)"
      using False Cons c st by (auto simp: quote_field_def special_char_def)
    also have "\<dots> = read_from InPlain (rev cs @ [c]) row acc (d # rest)"
      by (rule read_plain[OF cs])
    finally show ?thesis using d Cons by auto
  qed
qed

lemma read_fields:
  assumes "st = LineStart \<or> st = FieldStart" and "fs \<noteq> []"
      and "\<not> (st = LineStart \<and> fs = [[]])"
  shows "read_from st [] row acc (join_fields (map quote_field fs) @ CHR 0x0A # rest)
       = read_from LineStart [] [] (rev (rev fs @ row) # acc) rest"
  using assms
proof (induction fs arbitrary: st row)
  case Nil
  then show ?case by simp
next
  case (Cons f fs)
  show ?case
  proof (cases fs)
    case Nil
    with Cons.prems have "\<not> (st = LineStart \<and> f = [] \<and> CHR 0x0A = CHR 0x0A)" by simp
    from read_field[OF Cons.prems(1) _ this, of row acc rest] Nil show ?thesis by simp
  next
    case (Cons g gs)
    have "read_from st [] row acc (join_fields (map quote_field (f # fs)) @ CHR 0x0A # rest)
        = read_from st [] row acc
            (quote_field f @ CHR '','' # (join_fields (map quote_field fs) @ CHR 0x0A # rest))"
      using Cons by simp
    also have "\<dots> = read_from FieldStart [] (f # row) acc
            (join_fields (map quote_field fs) @ CHR 0x0A # rest)"
      using read_field[OF \<open>st = LineStart \<or> st = FieldStart\<close>, of "CHR '',''" f row acc] by simp
    also have "\<dots> = read_from LineStart [] [] (rev (rev fs @ f # row) # acc) rest"
      using Cons.IH[of FieldStart "f # row"] Cons by simp
    finally show ?thesis by simp
  qed
qed

lemma read_row:
  "read_from LineStart [] [] acc (write_row fs @ rest) = read_from LineStart [] [] (fs # acc) rest"
proof (cases "fs = [] \<or> fs = [[]]")
  case True
  then show ?thesis by (auto simp: write_row_def)
next
  case False
  then show ?thesis
    using read_fields[of LineStart fs "[]" acc rest] by (simp add: write_row_def)
qed

lemma read_rows:
  "read_from LineStart [] [] acc (write_csv table) = Some (rev acc @ table)"
proof (induction table arbitrary: acc)
  case Nil
  then show ?case by (simp add: write_csv_def)
next
  case (Cons fs table)
  have "read_from LineStart [] [] acc (write_csv (fs # table))
      = read_from LineStart [] [] acc (write_row fs @ write_csv table)"
    by (simp add: write_csv_def)
  also have "\<dots> = read_from LineStart [] [] (fs # acc) (write_csv table)"
    by (rule read_row)
  finally show ?case using Cons.IH[of "fs # acc"] by simp
qed

lemma read_write_csv: "read_csv (write_csv table) = Some table"
  by (simp add: read_csv_def read_rows)

lemma select_columns_Inr:
  assumes "select_columns ks df = Inr out"
  shows "columns out = ks" and "rows out = map (\<lambda>r. map (\<lambda>k. (k, cell r k)) ks) (rows df)"
  using assms by (auto simp: select_columns_def split: list.splits)

lemma text_rows_select:
  assumes "select_columns ks df = Inr out"
  shows "text_rows rp out = map (\<lambda>r. map (\<lambda>k. csv_field rp (cell r k)) ks) (rows df)"
proof -
  have "cell (map (\<lambda>k. (k, cell r k)) ks) k = cell r k" if "k \<in> set ks" for r k
    using that by (simp add: cell_def map_of_tabulate)
  then show ?thesis
    by (simp add: text_rows_def select_columns_Inr[OF assms] comp_def)
qed

lemma map_rows_set_column:
  assumes inv: "\<And>r v. h (AList.update k v r) = h r" and len: "length vs = length (rows df)"
  shows "map h (rows (set_column k vs df)) = map h (rows df)"
proof -
  have "map h (rows (set_column k vs df)) = map (\<lambda>(r, v). h r) (zip (rows df) vs)"
    by (simp add: set_column_def comp_def case_prod_unfold inv)
  also have "\<dots> = map h (map fst (zip (rows df) vs))"
    by (simp add: comp_def case_prod_unfold)
  also have "\<dots> = map h (rows df)" using len by simp
  finally show ?thesis .
qed

lemma display_text_update:
  assumes "k \<notin> set display_columns"
  shows "map (\<lambda>c. csv_field rp (cell (AList.update k v r) c)) display_columns
       = map (\<lambda>c. csv_field rp (cell r c)) display_columns"
  using assms by (intro map_cong) (auto simp: cell_update)

lemma header_line:
  "write_row display_columns
     = ''query_id,query_address,region,query_status,priority_status,query_description,lat,lon\<newline>''"
  by (simp add: write_row_def display_columns_def quote_field_def needs_quotes_def special_char_def)

text \<open>
  Claim C6, as amended. For every table that is rendered, the frame handed to
  \<^verbatim>\<open>convert_df_to_csv\<close> is the table view, its columns are \<^verbatim>\<open>query_id\<close>,
  \<^verbatim>\<open>query_address\<close>, \<^verbatim>\<open>region\<close>, \<^verbatim>\<open>query_status\<close>,
  \<^verbatim>\<open>priority_status\<close>, \<^verbatim>\<open>query_description\<close>, \<^verbatim>\<open>lat\<close> and \<^verbatim>\<open>lon\<close>,
  and the export starts with exactly that header line. Read back, the export yields the header
  and then, row for row and column for column, the text the export writes for each cell of the
  projected table: the cell's text, and the empty text for a missing value.
\<close>

theorem csv_round_trip:
  assumes "render rp df = Inr p"
  shows "columns (csv_source p) = display_columns
       \<and> table_view p = csv_source p
       \<and> text_rows rp (csv_source p)
           = map (\<lambda>r. map (\<lambda>k. csv_field rp (cell r k)) display_columns) (rows df)
       \<and> convert_df_to_csv rp (csv_source p)
           = ''query_id,query_address,region,query_status,priority_status,query_description,lat,lon\<newline>''
             @ write_csv (text_rows rp (csv_source p))
       \<and> read_csv (convert_df_to_csv rp (csv_source p))
           = Some (display_columns # text_rows rp (csv_source p))"
proof -
  note r = render_Inr[OF assms]
  from r(1) obtain df1 where t: "add_tooltip rp df = Inr df1"
    and c: "add_color df1 = Inr (layer_data p)" by blast
  let ?h = "\<lambda>r. map (\<lambda>k. csv_field rp (cell r k)) display_columns"
  have cols: "columns (csv_source p) = display_columns"
    by (rule select_columns_Inr(1)[OF r(3)])
  have same: "table_view p = csv_source p" using r(2,3) by simp
  from t obtain ts where ts: "map_exn (tooltip_of_row rp) (rows df) = Inr ts"
    and d1: "df1 = set_column ''tooltip'' (map PStr ts) df"
    by (auto simp: add_tooltip_def bind_exn_Inr)
  have "map ?h (rows df1) = map ?h (rows df)"
    unfolding d1
  proof (rule map_rows_set_column)
    show "?h (AList.update ''tooltip'' v r) = ?h r" for r v
      by (rule display_text_update) (simp add: display_columns_def)
    show "length (map PStr ts) = length (rows df)" using map_exn_length[OF ts] by simp
  qed
  moreover have "map ?h (rows (layer_data p)) = map ?h (rows df1)"
  proof -
    have "?h (AList.update ''color'' v r) = ?h r" for r v
      by (rule display_text_update) (simp add: display_columns_def)
    then show ?thesis by (simp add: add_color_Inr(1)[OF c] comp_def)
  qed
  ultimately have texts: "text_rows rp (csv_source p) = map ?h (rows df)"
    using text_rows_select[OF r(3), of rp] by simp
  have csv: "convert_df_to_csv rp (csv_source p)
      = write_csv (display_columns # text_rows rp (csv_source p))"
    by (simp add: convert_df_to_csv_def to_csv_def cols)
  have hdr: "convert_df_to_csv rp (csv_source p)
      = ''query_id,query_address,region,query_status,priority_status,query_description,lat,lon\<newline>''
        @ write_csv (text_rows rp (csv_source p))"
    unfolding csv by (simp add: write_csv_def header_line)
  have rt: "read_csv (convert_df_to_csv rp (csv_source p))
      = Some (display_columns # text_rows rp (csv_source p))"
    unfolding csv by (rule read_write_csv)
  from cols same texts hdr rt show ?thesis by simp
qed

theorem csv_round_trip_witness:
  "\<not> isl (render sample_repr quoted_table)
   \<and> convert_df_to_csv sample_repr (csv_source (projr (render sample_repr quoted_table)))
       = ''query_id,query_address,region,query_status,priority_status,query_description,lat,lon\<newline>''
         @ ''Q8,'' @ [CHR 0x22] @ ''1 Elm St, Unit 2'' @ [CHR 0x22] @ '',Gauteng,open,high,''
         @ [CHR 0x22] @ ''sign reads '' @ [CHR 0x22, CHR 0x22] @ ''STOP'' @ [CHR 0x22, CHR 0x22]
         @ [CHR 0x22] @ '',-26.2,28.0\<newline>''
   \<and> read_csv (convert_df_to_csv sample_repr (csv_source (projr (render sample_repr quoted_table))))
       = Some [display_columns,
               [''Q8'', ''1 Elm St, Unit 2'', ''Gauteng'', ''open'', ''high'',
                ''sign reads '' @ [CHR 0x22] @ ''STOP'' @ [CHR 0x22], ''-26.2'', ''28.0'']]"
proof -
  have a: "\<not> isl (render sample_repr quoted_table)" by code_simp
  then obtain p where p: "render sample_repr quoted_table = Inr p"
    by (cases "render sample_repr quoted_table") auto
  have t: "map (\<lambda>r. map (\<lambda>k. csv_field sample_repr (cell r k)) display_columns) (rows quoted_table)
      = [[''Q8'', ''1 Elm St, Unit 2'', ''Gauteng'', ''open'', ''high'',
          ''sign reads '' @ [CHR 0x22] @ ''STOP'' @ [CHR 0x22], ''-26.2'', ''28.0'']]"
    by code_simp
  have w: "write_csv [[''Q8'', ''1 Elm St, Unit 2'', ''Gauteng'', ''open'', ''high'',
          ''sign reads '' @ [CHR 0x22] @ ''STOP'' @ [CHR 0x22], ''-26.2'', ''28.0'']]
      = ''Q8,'' @ [CHR 0x22] @ ''1 Elm St, Unit 2'' @ [CHR 0x22] @ '',Gauteng,open,high,''
         @ [CHR 0x22] @ ''sign reads '' @ [CHR 0x22, CHR 0x22] @ ''STOP'' @ [CHR 0x22, CHR 0x22]
         @ [CHR 0x22] @ '',-26.2,28.0\<newline>''"
    by code_simp
  note rt = csv_round_trip [OF p]
  from rt have e3: "text_rows sample_repr (csv_source p)
      = map (\<lambda>r. map (\<lambda>k. csv_field sample_repr (cell r k)) display_columns) (rows quoted_table)"
    by blast
  from rt have e1: "convert_df_to_csv sample_repr (csv_source p)
      = ''query_id,query_address,region,query_status,priority_status,query_description,lat,lon\<newline>''
        @ write_csv (text_rows sample_repr (csv_source p))"
    by blast
  from rt have e2: "read_csv (convert_df_to_csv sample_repr (csv_source p))
      = Some (display_columns # text_rows sample_repr (csv_source p))"
    by blast
  have c2: "convert_df_to_csv sample_repr (csv_source p)
       = ''query_id,query_address,region,query_status,priority_status,query_description,lat,lon\<newline>''
         @ ''Q8,'' @ [CHR 0x22] @ ''1 Elm St, Unit 2'' @ [CHR 0x22] @ '',Gauteng,open,high,''
         @ [CHR 0x22] @ ''sign reads '' @ [CHR 0x22, CHR 0x22] @ ''STOP'' @ [CHR 0x22, CHR 0x22]
         @ [CHR 0x22] @ '',-26.2,28.0\<newline>''"
    by (simp only: e1 e3 t w)
  have c3: "read_csv (convert_df_to_csv sample_repr (csv_source p))
       = Some [display_columns,
               [''Q8'', ''1 Elm St, Unit 2'', ''Gauteng'', ''open'', ''high'',
                ''sign reads '' @ [CHR 0x22] @ ''STOP'' @ [CHR 0x22], ''-26.2'', ''28.0'']]"
    by (simp only: e2 e3 t)
  have q: "projr (render sample_repr quoted_table) = p" by (simp add: p)
  show ?thesis unfolding q by (intro conjI a c2 c3)
qed

text \<open>
  Claim C6 as it is stated has the export read back to a table equal to the projected table.
  Two records that differ in \<^verbatim>\<open>query_description\<close> only, the empty string in one and
  \<^verbatim>\<open>null\<close> in the other, give different projected tables and the same export, so
  whatever is read back is not equal to both.
\<close>

theorem csv_export_conflates_counterexample:
  "\<not> isl (run sample_repr (Body [blank_description_record]))
   \<and> \<not> isl (run sample_repr (Body [missing_description_record]))
   \<and> csv_source (projr (run sample_repr (Body [blank_description_record])))
       \<noteq> csv_source (projr (run sample_repr (Body [missing_description_record])))
   \<and> convert_df_to_csv sample_repr (csv_source (projr (run sample_repr (Body [blank_description_record]))))
       = convert_df_to_csv sample_repr
           (csv_source (projr (run sample_repr (Body [missing_description_record]))))
   \<and> read_csv (convert_df_to_csv sample_repr
           (csv_source (projr (run sample_repr (Body [missing_description_record])))))
       = Some [display_columns,
               [''Q7'', ''8 Pine Rd'', ''Gauteng'', ''open'', ''low'', [], ''-26.2'', ''28.0'']]"
  by code_simp

section \<open>Records that yield no coordinate\<close>

lemma extracts_null_iff:
  "extracts_null g \<longleftrightarrow>
     (\<exists>a b. lat_of_geocode g = Inr a \<and> lon_of_geocode g = Inr b \<and> (isna a \<or> isna b))"
  by (auto simp: extracts_null_def split: sum.splits)

lemma falsy_extracts_null: "\<not> truthy g \<Longrightarrow> extracts_null g"
  by (simp add: extracts_null_iff lat_of_geocode_def lon_of_geocode_def extract_key_def isna_def)

lemma shaped_extracts_null: "geocode_shaped g \<Longrightarrow> extracts_null g \<longleftrightarrow> null_coordinate g"
  using shaped_extract[of g] shaped_null_coordinate[of g] by (auto simp: extracts_null_iff)

lemma complete_iff_extracted:
  assumes "\<exists>a b. lat_of_geocode (cell r ''geocode'') = Inr a \<and> lon_of_geocode (cell r ''geocode'') = Inr b"
  shows "complete_row [''lat'', ''lon''] (flat_row r) \<longleftrightarrow> \<not> extracts_null (cell r ''geocode'')"
  using assms by (auto simp: complete_flat_row extracts_null_iff)

lemma normalizer_rows:
  assumes "normalizer df = Inr out"
  shows "rows out = map flat_row (filter (\<lambda>r. \<not> extracts_null (cell r ''geocode'')) (rows df))"
proof -
  note n = normalizer_Inr[OF assms]
  have "filter (\<lambda>r. complete_row [''lat'', ''lon''] (flat_row r)) (rows df)
      = filter (\<lambda>r. \<not> extracts_null (cell r ''geocode'')) (rows df)"
    by (rule filter_cong) (simp_all add: complete_iff_extracted[OF n(7)])
  then show ?thesis by (simp add: n(1) filter_map comp_def)
qed

lemma normalizer_warning_iff:
  "normalizer df = Inl (Halt Warning no_valid_geocodes_message)
     \<longleftrightarrow> \<not> empty_df df \<and> ''geocode'' \<in> set (columns df)
          \<and> list_all extracts_null (column df ''geocode'')"
proof
  assume w: "normalizer df = Inl (Halt Warning no_valid_geocodes_message)"
  then have g: "\<not> empty_df df" "''geocode'' \<in> set (columns df)"
    by (auto simp: normalizer_def split: if_splits)
  with w obtain df2 where f: "flatten df = Inr df2"
    and e: "empty_df (dropna [''lat'', ''lon''] df2)"
    by (auto simp: normalizer_def Let_def split: sum.splits if_splits)
  note fl = flatten_Inr[OF f]
  have "columns df2 \<noteq> []" using g(2) by (auto simp: fl(2) Let_def)
  with e have "filter (complete_row [''lat'', ''lon'']) (map flat_row (rows df)) = []"
    by (simp add: empty_df_def dropna_def fl(1))
  then have "\<And>r. r \<in> set (rows df) \<Longrightarrow> \<not> complete_row [''lat'', ''lon''] (flat_row r)"
    by (auto simp: filter_empty_conv)
  then have "\<And>r. r \<in> set (rows df) \<Longrightarrow> extracts_null (cell r ''geocode'')"
    using complete_iff_extracted[OF fl(3)] by blast
  then have "list_all extracts_null (column df ''geocode'')"
    by (simp add: list_all_iff column_map)
  with g show "\<not> empty_df df \<and> ''geocode'' \<in> set (columns df)
          \<and> list_all extracts_null (column df ''geocode'')" by simp
next
  assume a: "\<not> empty_df df \<and> ''geocode'' \<in> set (columns df)
          \<and> list_all extracts_null (column df ''geocode'')"
  then have en: "\<And>r. r \<in> set (rows df) \<Longrightarrow> extracts_null (cell r ''geocode'')"
    by (simp add: list_all_iff column_map)
  then have ok: "\<And>r. r \<in> set (rows df) \<Longrightarrow>
      \<exists>a b. lat_of_geocode (cell r ''geocode'') = Inr a \<and> lon_of_geocode (cell r ''geocode'') = Inr b"
    by (auto simp: extracts_null_iff)
  from flatten_ok[of df] ok obtain df2 where f: "flatten df = Inr df2" by blast
  note fl = flatten_Inr[OF f]
  have "filter (complete_row [''lat'', ''lon'']) (map flat_row (rows df)) = []"
    using en complete_iff_extracted[OF ok] by (auto simp: filter_empty_conv)
  then have "empty_df (dropna [''lat'', ''lon''] df2)"
    by (simp add: empty_df_def dropna_def fl(1))
  with a f show "normalizer df = Inl (Halt Warning no_valid_geocodes_message)"
    by (simp add: normalizer_def)
qed

lemma map_exn_filter:
  assumes "\<forall>x\<in>set xs. \<not> P x \<longrightarrow> (\<exists>y. f x = Inr y)"
  shows "(map_exn f (filter P xs) = Inl e) = (map_exn f xs = Inl e)"
    and "(\<exists>ys. map_exn f (filter P xs) = Inr ys) = (\<exists>ys. map_exn f xs = Inr ys)"
  using assms by (induction xs) (auto split: sum.splits)

lemma map_exn_map: "map_exn f (map g xs) = map_exn (\<lambda>x. f (g x)) xs"
  by (induction xs) (auto split: sum.splits)

lemma flatten_cases:
  "flatten df =
     (case map_exn lat_of_geocode (column df ''geocode'') of
        Inl e \<Rightarrow> Inl e
      | Inr lats \<Rightarrow>
          (case map_exn lon_of_geocode (column df ''geocode'') of
             Inl e \<Rightarrow> Inl e
           | Inr lons \<Rightarrow> Inr (set_column ''lon'' lons (set_column ''lat'' lats df))))"
proof (cases "map_exn lat_of_geocode (column df ''geocode'')")
  case (Inl e)
  then show ?thesis by (simp add: flatten_def)
next
  case (Inr lats)
  have "length lats = length (rows df)"
    using map_exn_length[OF Inr] by (simp add: column_map)
  then have "column (set_column ''lat'' lats df) ''geocode'' = column df ''geocode''"
    by (simp add: column_set_column_other)
  with Inr show ?thesis by (simp add: flatten_def Let_def)
qed

lemma flatten_without:
  assumes rem: "\<And>r. r \<in> set (rows df) \<Longrightarrow> removed r \<Longrightarrow> extracts_null (cell r ''geocode'')"
  shows "(flatten (without removed df) = Inl e) = (flatten df = Inl e)"
proof -
  let ?lat = "\<lambda>r. lat_of_geocode (cell r ''geocode'')"
  let ?lon = "\<lambda>r. lon_of_geocode (cell r ''geocode'')"
  let ?keep = "\<lambda>r. \<not> removed r"
  have c: "column (without removed df) ''geocode'' = map (\<lambda>r. cell r ''geocode'') (filter ?keep (rows df))"
    by (simp add: column_map without_def)
  have a1: "\<forall>r\<in>set (rows df). \<not> ?keep r \<longrightarrow> (\<exists>y. ?lat r = Inr y)"
    using rem by (auto simp: extracts_null_iff)
  have a2: "\<forall>r\<in>set (rows df). \<not> ?keep r \<longrightarrow> (\<exists>y. ?lon r = Inr y)"
    using rem by (auto simp: extracts_null_iff)
  note l = map_exn_filter[of "rows df" ?keep ?lat, OF a1]
  note n = map_exn_filter[of "rows df" ?keep ?lon, OF a2]
  have lat': "map_exn lat_of_geocode (column (without removed df) ''geocode'')
      = map_exn ?lat (filter ?keep (rows df))"
    by (simp add: c map_exn_map)
  have lon': "map_exn lon_of_geocode (column (without removed df) ''geocode'')
      = map_exn ?lon (filter ?keep (rows df))"
    by (simp add: c map_exn_map)
  have lat: "map_exn lat_of_geocode (column df ''geocode'') = map_exn ?lat (rows df)"
    by (simp add: column_map map_exn_map)
  have lon: "map_exn lon_of_geocode (column df ''geocode'') = map_exn ?lon (rows df)"
    by (simp add: column_map map_exn_map)
  show ?thesis
    unfolding flatten_cases[of df] flatten_cases[of "without removed df"] lat' lon' lat lon
    using l(1)[of e] l(2) n(1)[of e] n(2)
    by (cases "map_exn ?lat (rows df)"; cases "map_exn ?lat (filter ?keep (rows df))";
        cases "map_exn ?lon (rows df)"; cases "map_exn ?lon (filter ?keep (rows df))") auto
qed

lemma normalizer_without:
  assumes rem: "\<And>r. r \<in> set (rows df) \<Longrightarrow> removed r \<Longrightarrow> extracts_null (cell r ''geocode'')"
      and left: "rows (without removed df) \<noteq> []"
  shows "normalizer (without removed df) = normalizer df"
proof -
  let ?df' = "without removed df"
  have cols: "columns ?df' = columns df" by (simp add: without_def)
  have rws: "rows ?df' = filter (\<lambda>r. \<not> removed r) (rows df)" by (simp add: without_def)
  have ne: "rows df \<noteq> []" using left by (auto simp: rws)
  have guard: "(\<not> empty_df ?df' \<and> ''geocode'' \<in> set (columns ?df'))
      = (\<not> empty_df df \<and> ''geocode'' \<in> set (columns df))"
    using left ne by (simp add: empty_df_def cols)
  show ?thesis
  proof (cases "flatten df")
    case (Inl e)
    then have "flatten ?df' = Inl e" using flatten_without[of df removed e, OF rem] by simp
    with Inl guard show ?thesis by (simp add: normalizer_def)
  next
    case (Inr df2)
    have "\<not> isl (flatten ?df')"
    proof
      assume "isl (flatten ?df')"
      then obtain e where "flatten ?df' = Inl e" by (cases "flatten ?df'") auto
      then have "flatten df = Inl e" using flatten_without[of df removed e, OF rem] by simp
      with Inr show False by simp
    qed
    then obtain df2' where f': "flatten ?df' = Inr df2'" by (cases "flatten ?df'") auto
    note fl = flatten_Inr[OF Inr] and fl' = flatten_Inr[OF f']
    have kept: "filter (\<lambda>r. \<not> extracts_null (cell r ''geocode'')) (rows ?df')
        = filter (\<lambda>r. \<not> extracts_null (cell r ''geocode'')) (rows df)"
      unfolding rws filter_filter by (rule filter_cong) (use rem in auto)
    have "filter (\<lambda>r. complete_row [''lat'', ''lon''] (flat_row r)) (rows df)
        = filter (\<lambda>r. \<not> extracts_null (cell r ''geocode'')) (rows df)"
      by (rule filter_cong) (simp_all add: complete_iff_extracted[OF fl(3)])
    moreover have "filter (\<lambda>r. complete_row [''lat'', ''lon''] (flat_row r)) (rows ?df')
        = filter (\<lambda>r. \<not> extracts_null (cell r ''geocode'')) (rows ?df')"
      by (rule filter_cong) (simp_all add: complete_iff_extracted[OF fl'(3)])
    ultimately have "rows (dropna [''lat'', ''lon''] df2') = rows (dropna [''lat'', ''lon''] df2)"
      by (simp add: dropna_def fl(1) fl'(1) filter_map comp_def kept)
    moreover have "columns (dropna [''lat'', ''lon''] df2') = columns (dropna [''lat'', ''lon''] df2)"
      by (simp add: dropna_def fl(2) fl'(2) cols)
    ultimately have "dropna [''lat'', ''lon''] df2' = dropna [''lat'', ''lon''] df2" by simp
    with Inr f' guard show ?thesis by (simp add: normalizer_def)
  qed
qed

text \<open>
  Claim C10, as amended. A record whose geocode is \<^verbatim>\<open>null\<close> or an empty structure,
  has no \<^verbatim>\<open>lat\<close> or \<^verbatim>\<open>lng\<close> key or holds a missing value under one of them is
  read without an exception and gets a missing coordinate, and so is every record whose geocode
  is another false value. Such records are dropped and nothing else: the normalizer ends on
  the table without them as it ends on the whole table, as long as a record is left. The rows
  returned are exactly those of the other records, in their order, and the no-valid-geocodes
  warning is given exactly when a missing coordinate is extracted from every record; among
  geocodes that are structures or \<^verbatim>\<open>null\<close> these are the records listed first.
\<close>

theorem null_geocode_rows_are_dropped:
  "(\<forall>g. null_coordinate g \<longrightarrow>
       (\<exists>a b. lat_of_geocode g = Inr a \<and> lon_of_geocode g = Inr b \<and> (isna a \<or> isna b)))
   \<and> (\<forall>g. extracts_null g \<longleftrightarrow>
       (\<exists>a b. lat_of_geocode g = Inr a \<and> lon_of_geocode g = Inr b \<and> (isna a \<or> isna b)))
   \<and> (\<forall>g. \<not> truthy g \<longrightarrow> extracts_null g)
   \<and> (\<forall>g. geocode_shaped g \<longrightarrow> (extracts_null g \<longleftrightarrow> null_coordinate g))
   \<and> (\<forall>removed.
        (\<forall>r\<in>set (rows df). removed r \<longrightarrow> extracts_null (cell r ''geocode''))
        \<and> rows (without removed df) \<noteq> []
        \<longrightarrow> normalizer (without removed df) = normalizer df)
   \<and> (\<forall>out. normalizer df = Inr out \<longrightarrow>
        map (\<lambda>r. cell r ''geocode'') (rows out)
          = filter (\<lambda>g. \<not> extracts_null g) (column df ''geocode''))
   \<and> (normalizer df = Inl (Halt Warning no_valid_geocodes_message)
        \<longleftrightarrow> \<not> empty_df df \<and> ''geocode'' \<in> set (columns df)
             \<and> list_all extracts_null (column df ''geocode''))"
proof -
  have kept: "map (\<lambda>r. cell r ''geocode'') (rows out)
      = filter (\<lambda>g. \<not> extracts_null g) (column df ''geocode'')"
    if "normalizer df = Inr out" for out
    by (simp add: normalizer_rows[OF that] column_map filter_map comp_def cell_update)
  have alone: "normalizer (without removed df) = normalizer df"
    if "(\<forall>r\<in>set (rows df). removed r \<longrightarrow> extracts_null (cell r ''geocode''))
        \<and> rows (without removed df) \<noteq> []" for removed
    using that normalizer_without[of df removed] by blast
  show ?thesis
    using null_coordinate_extract extracts_null_iff falsy_extracts_null shaped_extracts_null
      alone kept normalizer_warning_iff[of df]
    by (intro conjI allI impI) blast+
qed

theorem null_geocode_rows_are_dropped_witness:
  "null_coordinate PNone \<and> extracts_null PNone
   \<and> \<not> truthy (PInt 0) \<and> extracts_null (PInt 0)
   \<and> geocode_shaped johannesburg \<and> \<not> null_coordinate johannesburg \<and> \<not> extracts_null johannesburg
   \<and> rows (without has_null_geocode sample_table) \<noteq> []
   \<and> normalizer (without has_null_geocode sample_table) = normalizer sample_table
   \<and> \<not> isl (normalizer sample_table)
   \<and> map (\<lambda>r. cell r ''geocode'') (rows (projr (normalizer sample_table)))
       = [johannesburg, johannesburg]
   \<and> \<not> list_all extracts_null (column sample_table ''geocode'')
   \<and> normalizer sample_table \<noteq> Inl (Halt Warning no_valid_geocodes_message)"
proof -
  note t = null_geocode_rows_are_dropped [of sample_table]
  have h1: "null_coordinate PNone" by simp
  have h2: "\<not> truthy (PInt 0)" by simp
  have h3: "geocode_shaped johannesburg" by (simp add: johannesburg_def)
  have h4: "\<not> null_coordinate johannesburg" by code_simp
  have h5: "\<forall>r\<in>set (rows sample_table). has_null_geocode r \<longrightarrow> extracts_null (cell r ''geocode'')"
    by code_simp
  have h6: "rows (without has_null_geocode sample_table) \<noteq> []" by code_simp
  have h7: "\<not> isl (normalizer sample_table)" by code_simp
  have h8: "filter (\<lambda>g. \<not> extracts_null g) (column sample_table ''geocode'')
      = [johannesburg, johannesburg]" by code_simp
  have h9: "\<not> list_all extracts_null (column sample_table ''geocode'')" by code_simp
  from h7 obtain out where o: "normalizer sample_table = Inr out"
    by (cases "normalizer sample_table") auto
  note t3 = t [THEN conjunct2, THEN conjunct2, THEN conjunct1, rule_format]
  note t4 = t [THEN conjunct2, THEN conjunct2, THEN conjunct2, THEN conjunct1, rule_format]
  note t5 = t [THEN conjunct2, THEN conjunct2, THEN conjunct2, THEN conjunct2, THEN conjunct1,
      rule_format]
  note t6 = t [THEN conjunct2, THEN conjunct2, THEN conjunct2, THEN conjunct2, THEN conjunct2,
      THEN conjunct1, rule_format]
  note t7 = t [THEN conjunct2, THEN conjunct2, THEN conjunct2, THEN conjunct2, THEN conjunct2,
      THEN conjunct2]
  have c1: "extracts_null PNone" using t4 [of PNone] h1 by simp
  have c2: "extracts_null (PInt 0)" using t3 [of "PInt 0"] h2 by simp
  have c3: "\<not> extracts_null johannesburg" using t4 [OF h3] h4 by simp
  have c4: "normalizer (without has_null_geocode sample_table) = normalizer sample_table"
    using t5 [of has_null_geocode] h5 h6 by simp
  have c5: "map (\<lambda>r. cell r ''geocode'') (rows out) = [johannesburg, johannesburg]"
    using t6 [OF o] h8 by simp
  have c6: "normalizer sample_table \<noteq> Inl (Halt Warning no_valid_geocodes_message)"
    using t7 h9 by simp
  have q: "projr (normalizer sample_table) = out" by (simp add: o)
  show ?thesis unfolding q by (intro conjI h1 h2 h3 h4 h6 h7 h9 c1 c2 c3 c4 c5 c6)
qed

text \<open>
  Claim C10 as it is stated lets the warning be given only when every record is in one of the
  listed situations. A single record whose geocode is the number 0 is in none of them, and the
  warning is given.
\<close>

theorem falsy_geocode_counterexample:
  "column (DataFrame [zero_geocode_record]) ''geocode'' = [PInt 0]
   \<and> \<not> null_coordinate (PInt 0)
   \<and> \<not> list_all null_coordinate (column (DataFrame [zero_geocode_record]) ''geocode'')
   \<and> normalizer (DataFrame [zero_geocode_record]) = Inl (Halt Warning no_valid_geocodes_message)"
  by code_simp

end
